theory Spec2Isabelle
  imports Main
begin

section \<open>YDBStorage: the FSM storage of aiogram\_ydb\_storage/storage.py\<close>

text \<open>
  The development follows \<^verbatim>\<open>src/aiogram_ydb_storage/storage.py\<close>. The class
  \<^verbatim>\<open>YDBStorage\<close> keeps no mutable state of its own besides its configuration; every
  effect goes to the YDB table through \<^verbatim>\<open>_execute_query\<close> or to the logger. Both are
  made explicit in a \<open>world\<close> that each operation takes and returns. A Python
  exception is the \<open>Inl\<close> branch of a sum, and each \<^verbatim>\<open>try/except\<close> of the source is a
  case distinction on it.
\<close>

subsection \<open>Python values\<close>

text \<open>
  The values that flow through the storage: \<^verbatim>\<open>None\<close>, booleans, integers, \<^verbatim>\<open>str\<close>,
  \<^verbatim>\<open>bytes\<close>, lists, dictionaries with string keys (\<^verbatim>\<open>Dict[str, Any]\<close>; an association
  list in insertion order) and opaque objects (anything else, such as a class instance).
  Floating point numbers are left out.
\<close>

datatype pyval =
    PNone
  | PBool bool
  | PInt int
  | PStr string
  | PBytes string
  | PList "pyval list"
  | PDict "(string \<times> pyval) list"
  | PObject nat

text \<open>Python's truth value testing, as used by \<^verbatim>\<open>if obj\<close> and \<^verbatim>\<open>if not current_data\<close>.\<close>

fun truthy :: "pyval \<Rightarrow> bool" where
  "truthy PNone = False"
| "truthy (PBool b) = b"
| "truthy (PInt i) = (i \<noteq> 0)"
| "truthy (PStr s) = (s \<noteq> [])"
| "truthy (PBytes s) = (s \<noteq> [])"
| "truthy (PList xs) = (xs \<noteq> [])"
| "truthy (PDict d) = (d \<noteq> [])"
| "truthy (PObject n) = True"

text \<open>\<^verbatim>\<open>d[k] = v\<close>: an existing key keeps its position, a new key goes to the end.\<close>

fun dict_setitem :: "string \<Rightarrow> pyval \<Rightarrow> (string \<times> pyval) list \<Rightarrow> (string \<times> pyval) list" where
  "dict_setitem k v [] = [(k, v)]"
| "dict_setitem k v ((k', v') # d) =
     (if k' = k then (k, v) # d else (k', v') # dict_setitem k v d)"

text \<open>\<^verbatim>\<open>d.update(other)\<close>: every item of \<open>other\<close>, in its order, is stored into \<open>d\<close>.\<close>

fun dict_update :: "(string \<times> pyval) list \<Rightarrow> (string \<times> pyval) list \<Rightarrow> (string \<times> pyval) list" where
  "dict_update d [] = d"
| "dict_update d ((k, v) # other) = dict_update (dict_setitem k v d) other"

subsection \<open>Exceptions\<close>

text \<open>
  The exceptions that can reach the storage, by where they come from; each carries the
  text that \<^verbatim>\<open>str(e)\<close> gives.
  \<^item> \<open>BackendError\<close>: anything raised out of \<^verbatim>\<open>ydb.aio.retry_operation\<close> (a ydb
    error, \<^verbatim>\<open>SessionPoolEmpty\<close>, a timeout, a cancellation, a parameter that does not
    fit its declared type);
  \<^item> \<open>CodecError\<close>: what \<^verbatim>\<open>json\<close> and \<^verbatim>\<open>pickle\<close> raise when they cannot
    serialize or deserialize (\<^verbatim>\<open>TypeError\<close>, \<^verbatim>\<open>ValueError\<close>,
    \<^verbatim>\<open>JSONDecodeError\<close>, \<^verbatim>\<open>PicklingError\<close>; all instances of \<^verbatim>\<open>Exception\<close>);
  \<^item> \<open>AttributeError\<close>: raised by the interpreter for a missing method;
  \<^item> \<open>RuntimeError\<close>: raised by \<^verbatim>\<open>asyncio.run\<close> inside a running event loop.
\<close>

datatype exn =
    BackendError string
  | CodecError string
  | AttributeError string
  | RuntimeError string

fun exn_str :: "exn \<Rightarrow> string" where
  "exn_str (BackendError m) = m"
| "exn_str (CodecError m) = m"
| "exn_str (AttributeError m) = m"
| "exn_str (RuntimeError m) = m"

subsection \<open>The backend: one table behind the query executor\<close>

text \<open>
  A row of the table created by \<^verbatim>\<open>_create_table\<close>: the primary key \<^verbatim>\<open>key\<close> indexes
  the table, \<^verbatim>\<open>data\<close> and \<^verbatim>\<open>state\<close> are nullable \<^verbatim>\<open>Utf8\<close> columns.
\<close>

record row =
  state_col :: "string option"
  data_col :: "string option"

text \<open>
  The four statements that the storage sends, with their parameters, and the scheme
  statement of the bootstrap. The table is the one named by \<^verbatim>\<open>self.table_name\<close>.
\<close>

datatype stmt =
    UpsertState string pyval
  | SelectState string
  | UpsertData string pyval
  | SelectData string
  | CreateTable string

text \<open>
  What the backend does with one call is decided outside the program: it runs the
  statement, or the retried operation ends in an exception and the transaction has no
  effect.
\<close>

datatype outcome = Ok | Fail exn

text \<open>
  The world: the rows of the table, the outcomes of the coming executor calls (the head
  is for the next call, an empty list is a healthy backend), the statements handed to the
  executor so far, the lines written with \<^verbatim>\<open>logger.error\<close>, and whether an
  event loop is running in the calling thread.
\<close>

record world =
  table :: "string \<rightharpoonup> row"
  pending :: "outcome list"
  issued :: "stmt list"
  logged :: "string list"
  loop_running :: bool

definition logger_error :: "string \<Rightarrow> world \<Rightarrow> world" where
  "logger_error msg w = w\<lparr>logged := logged w @ [msg]\<rparr>"

definition next_outcome :: "world \<Rightarrow> outcome \<times> world" where
  "next_outcome w =
     (case pending w of [] \<Rightarrow> (Ok, w) | oc # ocs \<Rightarrow> (oc, w\<lparr>pending := ocs\<rparr>))"

text \<open>
  \<^verbatim>\<open>DECLARE $s AS Utf8\<close> and \<^verbatim>\<open>DECLARE $d AS Utf8\<close>: the parameter is a text, not
  optional. A \<^verbatim>\<open>None\<close>, a \<^verbatim>\<open>bytes\<close> or any other value does not fit the declared
  type and the call fails.
\<close>

definition utf8_param :: "pyval \<Rightarrow> exn + string" where
  "utf8_param v =
     (case v of PStr s \<Rightarrow> Inr s
      | _ \<Rightarrow> Inl (BackendError ''parameter does not match the declared type Utf8''))"

text \<open>\<^verbatim>\<open>UPSERT INTO t (key, c) VALUES ($k, $v)\<close>: insert the row if absent, write column \<open>c\<close> only.\<close>

definition upsert_row :: "string \<Rightarrow> (row \<Rightarrow> row) \<Rightarrow> (string \<rightharpoonup> row) \<Rightarrow> (string \<rightharpoonup> row)" where
  "upsert_row k f t =
     t(k \<mapsto> f (case t k of None \<Rightarrow> \<lparr>state_col = None, data_col = None\<rparr> | Some r \<Rightarrow> r))"

text \<open>
  A healthy run of a statement: the rows of the result set (for a select, the selected
  column of each matching row; the key is unique, so at most one) and the new table.
\<close>

fun run_stmt :: "stmt \<Rightarrow> (string \<rightharpoonup> row) \<Rightarrow> exn + (string option list \<times> (string \<rightharpoonup> row))" where
  "run_stmt (UpsertState k v) t =
     (case utf8_param v of Inl e \<Rightarrow> Inl e
      | Inr s \<Rightarrow> Inr ([], upsert_row k (\<lambda>r. r\<lparr>state_col := Some s\<rparr>) t))"
| "run_stmt (UpsertData k v) t =
     (case utf8_param v of Inl e \<Rightarrow> Inl e
      | Inr s \<Rightarrow> Inr ([], upsert_row k (\<lambda>r. r\<lparr>data_col := Some s\<rparr>) t))"
| "run_stmt (SelectState k) t =
     (case t k of None \<Rightarrow> Inr ([], t) | Some r \<Rightarrow> Inr ([state_col r], t))"
| "run_stmt (SelectData k) t =
     (case t k of None \<Rightarrow> Inr ([], t) | Some r \<Rightarrow> Inr ([data_col r], t))"
| "run_stmt (CreateTable n) t = Inr ([], t)"

text \<open>
  \<^verbatim>\<open>_execute_query\<close>: the statement is handed to the retried operation; it either
  raises or returns the rows of the first result set.
\<close>

definition execute_query :: "stmt \<Rightarrow> world \<Rightarrow> (exn + string option list) \<times> world" where
  "execute_query q w =
     (let (oc, w1) = next_outcome (w\<lparr>issued := issued w @ [q]\<rparr>) in
      case oc of
        Fail e \<Rightarrow> (Inl e, w1)
      | Ok \<Rightarrow>
          (case run_stmt q (table w1) of
             Inl e \<Rightarrow> (Inl e, w1)
           | Inr (rows, t) \<Rightarrow> (Inr rows, w1\<lparr>table := t\<rparr>)))"

subsection \<open>The codec libraries\<close>

text \<open>
  \<^verbatim>\<open>json.dumps\<close>, \<^verbatim>\<open>json.loads\<close>, \<^verbatim>\<open>pickle.dumps\<close> and \<^verbatim>\<open>pickle.loads\<close> belong to
  Python's standard library, not to the repository: they are parameters of the model.
  Each returns its result or raises. For \<^verbatim>\<open>json\<close> the parameters are also given their
  value, further down.
\<close>

record codec =
  json_dumps :: "pyval \<Rightarrow> exn + string"
  json_loads :: "pyval \<Rightarrow> exn + pyval"
  pickle_dumps :: "pyval \<Rightarrow> exn + string"
  pickle_loads :: "pyval \<Rightarrow> exn + pyval"

subsection \<open>The storage object\<close>

datatype driver = Driver nat

datatype session_pool = SessionPool "driver option" | GivenPool nat

record storage =
  driver :: "driver option"
  session_pool :: session_pool
  table_name :: string
  serializing_method :: string

text \<open>\<^verbatim>\<open>StorageKey\<close>, with the three fields that \<^verbatim>\<open>_key\<close> reads.\<close>

record StorageKey =
  bot_id :: int
  chat_id :: int
  user_id :: int

text \<open>\<^verbatim>\<open>str\<close> of an integer: its decimal digits, with a minus sign when negative.\<close>

definition digit :: "nat \<Rightarrow> char" where
  "digit n = ''0123456789'' ! n"

function str_nat :: "nat \<Rightarrow> string" where
  "str_nat n = (if n < 10 then [digit n] else str_nat (n div 10) @ [digit (n mod 10)])"
  by pat_completeness auto
termination
  by (relation "measure (\<lambda>n. n)") auto

declare str_nat.simps [simp del]

definition str_int :: "int \<Rightarrow> string" where
  "str_int i = (if i < 0 then CHR ''-'' # str_nat (nat (- i)) else str_nat (nat i))"

text \<open>\<^verbatim>\<open>_key\<close> (a constant's name cannot start with an underscore).\<close>

definition key :: "StorageKey \<Rightarrow> string" where
  "key k = str_int (bot_id k) @ '':'' @ str_int (chat_id k) @ '':'' @ str_int (user_id k)"


text \<open>
  \<^verbatim>\<open>_ser\<close>: \<^verbatim>\<open>pickle.dumps\<close> gives \<^verbatim>\<open>bytes\<close>, \<^verbatim>\<open>json.dumps\<close> (also the default
  branch of the \<^verbatim>\<open>match\<close>) gives \<^verbatim>\<open>str\<close>; an exception is logged and \<^verbatim>\<open>None\<close>
  returned.
\<close>

definition ser :: "codec \<Rightarrow> storage \<Rightarrow> pyval \<Rightarrow> world \<Rightarrow> pyval \<times> world" where
  "ser lib self obj w =
     (case (if serializing_method self = ''pickle''
            then (case pickle_dumps lib obj of Inl e \<Rightarrow> Inl e | Inr b \<Rightarrow> Inr (PBytes b))
            else (case json_dumps lib obj of Inl e \<Rightarrow> Inl e | Inr s \<Rightarrow> Inr (PStr s))) of
        Inr v \<Rightarrow> (v, w)
      | Inl e \<Rightarrow> (PNone, logger_error (''Serializing error! '' @ exn_str e) w))"

text \<open>\<^verbatim>\<open>_dsr\<close>: a falsy \<open>obj\<close> (\<^verbatim>\<open>None\<close>, the empty text) is \<^verbatim>\<open>None\<close> without a call of the library.\<close>

definition dsr :: "codec \<Rightarrow> storage \<Rightarrow> pyval \<Rightarrow> world \<Rightarrow> pyval \<times> world" where
  "dsr lib self obj w =
     (case (if serializing_method self = ''pickle''
            then (if truthy obj then pickle_loads lib obj else Inr PNone)
            else (if truthy obj then json_loads lib obj else Inr PNone)) of
        Inr v \<Rightarrow> (v, w)
      | Inl e \<Rightarrow>
          (PNone,
           logger_error
             (''Deserializing error! Probably, unsupported serializing method was used. ''
                @ exn_str e) w))"

text \<open>
  \<^verbatim>\<open>_create_table\<close>: the scheme statement goes through \<^verbatim>\<open>retry_operation\<close> with a
  callee of its own; any exception is logged.
\<close>

definition execute_scheme :: "stmt \<Rightarrow> world \<Rightarrow> (exn + string option list) \<times> world" where
  "execute_scheme q w =
     (let (oc, w1) = next_outcome (w\<lparr>issued := issued w @ [q]\<rparr>) in
      case oc of
        Fail e \<Rightarrow> (Inl e, w1)
      | Ok \<Rightarrow>
          (case run_stmt q (table w1) of
             Inl e \<Rightarrow> (Inl e, w1)
           | Inr (rows, t) \<Rightarrow> (Inr rows, w1\<lparr>table := t\<rparr>)))"

definition create_table :: "storage \<Rightarrow> world \<Rightarrow> (exn + pyval) \<times> world" where
  "create_table self w =
     (case execute_scheme (CreateTable (table_name self)) w of
        (Inr rows, w1) \<Rightarrow> (Inr PNone, w1)
      | (Inl e, w1) \<Rightarrow> (Inr PNone, logger_error (''FSM Storage error: '' @ exn_str e) w1))"

text \<open>
  \<^verbatim>\<open>asyncio.run(coro)\<close>: raises \<^verbatim>\<open>RuntimeError\<close> when an event loop is already
  running in the thread, and runs the coroutine to its end otherwise.
\<close>

definition asyncio_run :: "(world \<Rightarrow> (exn + 'a) \<times> world) \<Rightarrow> world \<Rightarrow> (exn + 'a) \<times> world" where
  "asyncio_run coro w =
     (if loop_running w
      then (Inl (RuntimeError ''asyncio.run() cannot be called from a running event loop''), w)
      else coro w)"

text \<open>
  \<^verbatim>\<open>__init__\<close>. A driver configuration and a session pool are opaque handles; building
  \<^verbatim>\<open>ydb.Driver\<close> and \<^verbatim>\<open>ydb.SessionPool\<close> only wraps them.
\<close>

definition init :: "nat option \<Rightarrow> session_pool option \<Rightarrow> string \<Rightarrow> string \<Rightarrow> world
    \<Rightarrow> (exn + storage) \<times> world" where
  "init driver_config session_pool_arg serializing_method_arg table_name_arg w =
     (let drv = (case driver_config of Some c \<Rightarrow> Some (Driver c) | None \<Rightarrow> None);
          self = \<lparr>driver = drv,
                  session_pool =
                    (case session_pool_arg of None \<Rightarrow> SessionPool drv | Some p \<Rightarrow> p),
                  table_name = table_name_arg,
                  serializing_method =
                    (if serializing_method_arg \<noteq> ''pickle'' \<and> serializing_method_arg \<noteq> ''json''
                     then ''json'' else serializing_method_arg)\<rparr>
      in case asyncio_run (create_table self) w of
           (Inr r, w1) \<Rightarrow> (Inr self, w1)
         | (Inl e, w1) \<Rightarrow> (Inr self, logger_error (''FSM Storage error: '' @ exn_str e) w1))"

subsection \<open>The public operations\<close>

text \<open>
  The \<open>state\<close> argument of \<^verbatim>\<open>set_state\<close>: a \<^verbatim>\<open>State\<close> object (whose attribute
  \<^verbatim>\<open>state\<close> is a text or \<^verbatim>\<open>None\<close>), a plain text, or \<^verbatim>\<open>None\<close>.
\<close>

datatype state_arg = StateObj "string option" | StateStr string | NoState

definition set_state :: "storage \<Rightarrow> StorageKey \<Rightarrow> state_arg \<Rightarrow> world \<Rightarrow> (exn + pyval) \<times> world" where
  "set_state self k state w =
     (let s_key = key k;
          s_state = (case state of StateObj s \<Rightarrow> s | StateStr s \<Rightarrow> Some s | NoState \<Rightarrow> None);
          s_state = (case s_state of None \<Rightarrow> [] | Some s \<Rightarrow> (if s \<noteq> [] then s else []))
      in case execute_query (UpsertState s_key (PStr s_state)) w of
           (Inr rows, w1) \<Rightarrow> (Inr PNone, w1)
         | (Inl e, w1) \<Rightarrow> (Inr PNone, logger_error (''FSM Storage error: '' @ exn_str e) w1))"

text \<open>\<^verbatim>\<open>row.get(column)\<close>: the text of the column, \<^verbatim>\<open>None\<close> for NULL.\<close>

definition column_value :: "string option \<Rightarrow> pyval" where
  "column_value c = (case c of None \<Rightarrow> PNone | Some s \<Rightarrow> PStr s)"

definition get_state :: "storage \<Rightarrow> StorageKey \<Rightarrow> world \<Rightarrow> (exn + pyval) \<times> world" where
  "get_state self k w =
     (let s_key = key k
      in case execute_query (SelectState s_key) w of
           (Inr rows, w1) \<Rightarrow>
             (Inr (case rows of [] \<Rightarrow> PNone | r # rs \<Rightarrow> column_value r), w1)
         | (Inl e, w1) \<Rightarrow> (Inr PNone, logger_error (''FSM Storage error: '' @ exn_str e) w1))"

definition set_data :: "codec \<Rightarrow> storage \<Rightarrow> StorageKey \<Rightarrow> pyval \<Rightarrow> world \<Rightarrow> (exn + pyval) \<times> world" where
  "set_data lib self k data w =
     (let s_key = key k;
          (s_data, w0) = ser lib self data w
      in case execute_query (UpsertData s_key s_data) w0 of
           (Inr rows, w1) \<Rightarrow> (Inr PNone, w1)
         | (Inl e, w1) \<Rightarrow> (Inr PNone, logger_error (''FSM Storage error: '' @ exn_str e) w1))"

definition get_data :: "codec \<Rightarrow> storage \<Rightarrow> StorageKey \<Rightarrow> world \<Rightarrow> (exn + pyval) \<times> world" where
  "get_data lib self k w =
     (let s_key = key k
      in case execute_query (SelectData s_key) w of
           (Inr rows, w1) \<Rightarrow>
             (case rows of
                [] \<Rightarrow> (Inr PNone, w1)
              | r # rs \<Rightarrow> (let (v, w2) = dsr lib self (column_value r) w1 in (Inr v, w2)))
         | (Inl e, w1) \<Rightarrow> (Inr PNone, logger_error (''FSM Storage error: '' @ exn_str e) w1))"

text \<open>
  \<^verbatim>\<open>update_data\<close> has no handler of its own. \<^verbatim>\<open>current_data.update(data)\<close> is a
  method of dictionaries: on any other truthy value the interpreter raises
  \<^verbatim>\<open>AttributeError\<close>. The argument \<open>data\<close> is a dictionary.
\<close>

definition update_data :: "codec \<Rightarrow> storage \<Rightarrow> StorageKey \<Rightarrow> (string \<times> pyval) list \<Rightarrow> world
    \<Rightarrow> (exn + pyval) \<times> world" where
  "update_data lib self k data w =
     (case get_data lib self k w of
        (Inl e, w1) \<Rightarrow> (Inl e, w1)
      | (Inr got, w1) \<Rightarrow>
          (let current_data = (if \<not> truthy got then PDict [] else got)
           in case current_data of
                PDict d \<Rightarrow>
                  (let merged = dict_update d data
                   in case set_data lib self k (PDict merged) w1 of
                        (Inl e, w2) \<Rightarrow> (Inl e, w2)
                      | (Inr r, w2) \<Rightarrow> (Inr (PDict merged), w2))
              | _ \<Rightarrow> (Inl (AttributeError ''object has no attribute update''), w1)))"


subsection \<open>Python's json module\<close>

text \<open>
  \<^verbatim>\<open>json.dumps(obj)\<close> and \<^verbatim>\<open>json.loads(s)\<close> as the storage calls them, with the default
  arguments, written after the encoder and the decoder of Python's standard library
  (\<^verbatim>\<open>json/encoder.py\<close>, \<^verbatim>\<open>json/decoder.py\<close>, \<^verbatim>\<open>json/scanner.py\<close>); they instantiate the
  parameters \<open>json_dumps\<close> and \<open>json_loads\<close> of the codec. The limits of the model are those of
  \<^typ>\<open>pyval\<close>: there are no floating point numbers, so a text with a fraction or an exponent and
  the literals \<^verbatim>\<open>NaN\<close> and \<^verbatim>\<open>Infinity\<close> get no value here; a character is a code point below 256,
  so a \<^verbatim>\<open>u\<close> escape above \<^verbatim>\<open>00ff\<close> gets no value either; of \<^verbatim>\<open>bytes\<close> only ASCII text is
  read. The limits that the interpreter puts on the depth of recursion and on the number of
  digits of an integer are not modelled.
\<close>

text \<open>
  The encoder. \<^verbatim>\<open>encode_basestring_ascii\<close>: a string goes between double quotes; the quote and
  the backslash are escaped, line feed, carriage return, tab, backspace and form feed have
  their short escapes, the other characters from the space to the tilde stand for themselves, and
  every other character is written as a \<^verbatim>\<open>u\<close> escape of four lower case hexadecimal digits.
\<close>

definition hexdigit :: "nat \<Rightarrow> char" where
  "hexdigit n = ''0123456789abcdef'' ! n"

definition escape_char :: "char \<Rightarrow> string" where
  "escape_char c =
     (if c = CHR 0x22 then [CHR 0x5C, CHR 0x22]
      else if c = CHR 0x5C then [CHR 0x5C, CHR 0x5C]
      else if c = CHR 0x0A then [CHR 0x5C, CHR ''n'']
      else if c = CHR 0x0D then [CHR 0x5C, CHR ''r'']
      else if c = CHR 0x09 then [CHR 0x5C, CHR ''t'']
      else if c = CHR 0x08 then [CHR 0x5C, CHR ''b'']
      else if c = CHR 0x0C then [CHR 0x5C, CHR ''f'']
      else if 32 \<le> (of_char c :: nat) \<and> (of_char c :: nat) \<le> 126 then [c]
      else [CHR 0x5C, CHR ''u'', CHR ''0'', CHR ''0'',
            hexdigit ((of_char c :: nat) div 16), hexdigit ((of_char c :: nat) mod 16)])"

definition quote :: "string \<Rightarrow> string" where
  "quote s = CHR 0x22 # concat (map escape_char s) @ [CHR 0x22]"

text \<open>\<^verbatim>\<open>sep.join(parts)\<close>.\<close>

fun join :: "string \<Rightarrow> string list \<Rightarrow> string" where
  "join sep [] = []"
| "join sep [x] = x"
| "join sep (x # y # ys) = x @ sep @ join sep (y # ys)"

text \<open>
  The values that the encoder accepts: \<^verbatim>\<open>None\<close>, booleans, integers, strings, lists and
  dictionaries of such values. These are the JSON values: null, booleans, numbers, strings,
  sequences and mappings. On \<^verbatim>\<open>bytes\<close> and on any other object the encoder raises
  \<^verbatim>\<open>TypeError\<close>, at any depth.
\<close>

fun json_value :: "pyval \<Rightarrow> bool" where
  "json_value PNone = True"
| "json_value (PBool b) = True"
| "json_value (PInt i) = True"
| "json_value (PStr s) = True"
| "json_value (PBytes b) = False"
| "json_value (PList xs) = list_all json_value xs"
| "json_value (PDict kvs) = list_all (\<lambda>p. json_value (snd p)) kvs"
| "json_value (PObject n) = False"

text \<open>
  The text of a value: \<^verbatim>\<open>null\<close>, \<^verbatim>\<open>true\<close>, \<^verbatim>\<open>false\<close>, the decimal text of an integer, the
  quoted string, the items between brackets and the members between braces, with the
  default separators \<^verbatim>\<open>', '\<close> and \<^verbatim>\<open>': '\<close>.
\<close>

fun json_text :: "pyval \<Rightarrow> string" where
  "json_text PNone = ''null''"
| "json_text (PBool b) = (if b then ''true'' else ''false'')"
| "json_text (PInt i) = str_int i"
| "json_text (PStr s) = quote s"
| "json_text (PList xs) = ''['' @ join '', '' (map json_text xs) @ '']''"
| "json_text (PDict kvs) =
     ''{'' @ join '', '' (map (\<lambda>p. quote (fst p) @ '': '' @ json_text (snd p)) kvs) @ ''}''"
| "json_text v = []"

definition py_json_dumps :: "pyval \<Rightarrow> exn + string" where
  "py_json_dumps v =
     (if json_value v then Inr (json_text v)
      else Inl (CodecError ''Object is not JSON serializable''))"

text \<open>
  The decoder. White space is the space, the tab, the line feed and the carriage return.
\<close>

definition is_ws :: "char \<Rightarrow> bool" where
  "is_ws c = (c = CHR 0x20 \<or> c = CHR 0x09 \<or> c = CHR 0x0A \<or> c = CHR 0x0D)"

definition skip_ws :: "string \<Rightarrow> string" where
  "skip_ws s = dropWhile is_ws s"

definition is_digit :: "char \<Rightarrow> bool" where
  "is_digit c = (48 \<le> (of_char c :: nat) \<and> (of_char c :: nat) \<le> 57)"

text \<open>The four hexadecimal digits of a \<^verbatim>\<open>u\<close> escape, in either case.\<close>

definition hexval :: "char \<Rightarrow> nat option" where
  "hexval c =
     (if is_digit c then Some (of_char c - 48)
      else if 97 \<le> (of_char c :: nat) \<and> (of_char c :: nat) \<le> 102 then Some (of_char c - 87)
      else if 65 \<le> (of_char c :: nat) \<and> (of_char c :: nat) \<le> 70 then Some (of_char c - 55)
      else None)"

definition hex4 :: "char \<Rightarrow> char \<Rightarrow> char \<Rightarrow> char \<Rightarrow> nat option" where
  "hex4 a b c d =
     (case (hexval a, hexval b, hexval c, hexval d) of
        (Some x, Some y, Some z, Some u) \<Rightarrow> Some (((x * 16 + y) * 16 + z) * 16 + u)
      | _ \<Rightarrow> None)"

text \<open>The table \<^verbatim>\<open>BACKSLASH\<close> of the short escapes.\<close>

definition unescape :: "char \<Rightarrow> char option" where
  "unescape e =
     (if e = CHR 0x22 then Some (CHR 0x22)
      else if e = CHR 0x5C then Some (CHR 0x5C)
      else if e = CHR ''/'' then Some (CHR ''/'')
      else if e = CHR ''b'' then Some (CHR 0x08)
      else if e = CHR ''f'' then Some (CHR 0x0C)
      else if e = CHR ''n'' then Some (CHR 0x0A)
      else if e = CHR ''r'' then Some (CHR 0x0D)
      else if e = CHR ''t'' then Some (CHR 0x09)
      else None)"

definition cons_result :: "char \<Rightarrow> (string \<times> string) option \<Rightarrow> (string \<times> string) option" where
  "cons_result c r = (case r of None \<Rightarrow> None | Some (u, rest) \<Rightarrow> Some (c # u, rest))"

text \<open>
  \<^verbatim>\<open>scanstring\<close>, from the character after the opening quote: the string read and the text
  after the closing quote, or nothing for a string that does not end, an unknown escape or a
  control character (the decoder is strict).
\<close>

fun scan_string :: "string \<Rightarrow> (string \<times> string) option" where
  "scan_string [] = None"
| "scan_string (c # cs) =
     (if c = CHR 0x22 then Some ([], cs)
      else if c = CHR 0x5C then
        (case cs of
           [] \<Rightarrow> None
         | e # r \<Rightarrow>
             if e = CHR ''u'' then
               (case r of
                  h1 # h2 # h3 # h4 # r' \<Rightarrow>
                    (case hex4 h1 h2 h3 h4 of
                       Some n \<Rightarrow> if n < 256 then cons_result (char_of n) (scan_string r') else None
                     | None \<Rightarrow> None)
                | _ \<Rightarrow> None)
             else
               (case unescape e of
                  Some ch \<Rightarrow> cons_result ch (scan_string r)
                | None \<Rightarrow> None))
      else if (of_char c :: nat) < 32 then None
      else cons_result c (scan_string cs))"

text \<open>
  \<^verbatim>\<open>NUMBER_RE\<close>: an optional minus sign, then \<^verbatim>\<open>0\<close> or a digit other than \<^verbatim>\<open>0\<close> with the
  digits that follow it; a fraction (a point and a digit) or an exponent after it makes the
  number a float, which has no value here.
\<close>

definition nat_of_digits :: "string \<Rightarrow> nat" where
  "nat_of_digits ds = foldl (\<lambda>a c. 10 * a + (of_char c - 48)) 0 ds"

definition is_frac :: "string \<Rightarrow> bool" where
  "is_frac s = (case s of c # d # r \<Rightarrow> c = CHR ''.'' \<and> is_digit d | _ \<Rightarrow> False)"

definition is_exp :: "string \<Rightarrow> bool" where
  "is_exp s =
     (case s of
        e # d # r \<Rightarrow>
          (e = CHR ''e'' \<or> e = CHR ''E'') \<and>
          (is_digit d \<or>
           ((d = CHR ''+'' \<or> d = CHR ''-'') \<and> (case r of d2 # r2 \<Rightarrow> is_digit d2 | [] \<Rightarrow> False)))
      | _ \<Rightarrow> False)"

definition scan_nat :: "string \<Rightarrow> (nat \<times> string) option" where
  "scan_nat s =
     (case s of
        [] \<Rightarrow> None
      | c # r \<Rightarrow>
          if c = CHR ''0'' then Some (0, r)
          else if is_digit c then
            Some (nat_of_digits (takeWhile is_digit s), dropWhile is_digit s)
          else None)"

definition scan_number :: "string \<Rightarrow> (pyval \<times> string) option" where
  "scan_number s =
     (case (case s of
              c # r \<Rightarrow> if c = CHR ''-'' then map_option (\<lambda>(n, t). (- int n, t)) (scan_nat r)
                       else map_option (\<lambda>(n, t). (int n, t)) (scan_nat s)
            | [] \<Rightarrow> None) of
        None \<Rightarrow> None
      | Some (i, rest) \<Rightarrow>
          if is_frac rest \<or> is_exp rest then None
          else Some (PInt i, rest))"

text \<open>
  \<^verbatim>\<open>scan_once\<close>, \<^verbatim>\<open>JSONArray\<close> and \<^verbatim>\<open>JSONObject\<close>: the value at the head of a text and the
  text after it, the items of an array up to its closing bracket, the members of an object
  up to its closing brace. The members become a dictionary as \<^verbatim>\<open>dict(pairs)\<close> makes it: a
  repeated key keeps its first place and takes its last value. The first argument bounds the
  depth of the descent; each call spends one unit.
\<close>

fun parse_value :: "nat \<Rightarrow> string \<Rightarrow> (pyval \<times> string) option"
  and parse_items :: "nat \<Rightarrow> string \<Rightarrow> (pyval list \<times> string) option"
  and parse_pairs :: "nat \<Rightarrow> string \<Rightarrow> ((string \<times> pyval) list \<times> string) option" where
  "parse_value 0 s = None"
| "parse_value (Suc n) s =
     (case s of
        [] \<Rightarrow> None
      | c # r \<Rightarrow>
          if c = CHR 0x22 then map_option (\<lambda>(u, rest). (PStr u, rest)) (scan_string r)
          else if c = CHR ''{'' then
            (case skip_ws r of
               [] \<Rightarrow> None
             | c' # r' \<Rightarrow>
                 if c' = CHR ''}'' then Some (PDict [], r')
                 else map_option (\<lambda>(kvs, rest). (PDict (dict_update [] kvs), rest))
                        (parse_pairs n (c' # r')))
          else if c = CHR ''['' then
            (case skip_ws r of
               [] \<Rightarrow> None
             | c' # r' \<Rightarrow>
                 if c' = CHR '']'' then Some (PList [], r')
                 else map_option (\<lambda>(xs, rest). (PList xs, rest)) (parse_items n (c' # r')))
          else if take 4 s = ''null'' then Some (PNone, drop 4 s)
          else if take 4 s = ''true'' then Some (PBool True, drop 4 s)
          else if take 5 s = ''false'' then Some (PBool False, drop 5 s)
          else scan_number s)"
| "parse_items 0 s = None"
| "parse_items (Suc n) s =
     (case parse_value n s of
        None \<Rightarrow> None
      | Some (v, r) \<Rightarrow>
          (case skip_ws r of
             [] \<Rightarrow> None
           | c # r' \<Rightarrow>
               if c = CHR '']'' then Some ([v], r')
               else if c = CHR '','' then
                 map_option (\<lambda>(vs, rest). (v # vs, rest)) (parse_items n (skip_ws r'))
               else None))"
| "parse_pairs 0 s = None"
| "parse_pairs (Suc n) s =
     (case s of
        [] \<Rightarrow> None
      | q # r0 \<Rightarrow>
          if q \<noteq> CHR 0x22 then None
          else
            (case scan_string r0 of
               None \<Rightarrow> None
             | Some (k, r1) \<Rightarrow>
                 (case skip_ws r1 of
                    [] \<Rightarrow> None
                  | c # r2 \<Rightarrow>
                      if c \<noteq> CHR '':'' then None
                      else
                        (case parse_value n (skip_ws r2) of
                           None \<Rightarrow> None
                         | Some (v, r3) \<Rightarrow>
                             (case skip_ws r3 of
                                [] \<Rightarrow> None
                              | c' # r4 \<Rightarrow>
                                  if c' = CHR ''}'' then Some ([(k, v)], r4)
                                  else if c' = CHR '','' then
                                    map_option (\<lambda>(kvs, rest). ((k, v) # kvs, rest))
                                      (parse_pairs n (skip_ws r4))
                                  else None)))))"

text \<open>
  \<^verbatim>\<open>JSONDecoder.decode\<close>: white space, one value, white space, and nothing more. The bound
  given to the descent is the length of the text plus one.
\<close>

definition json_decode :: "string \<Rightarrow> exn + pyval" where
  "json_decode s =
     (case parse_value (Suc (length s)) (skip_ws s) of
        None \<Rightarrow> Inl (CodecError ''Expecting value'')
      | Some (v, r) \<Rightarrow>
          if skip_ws r = [] then Inr v else Inl (CodecError ''Extra data''))"

text \<open>
  \<^verbatim>\<open>json.loads\<close>: a \<^verbatim>\<open>str\<close> is decoded; \<^verbatim>\<open>bytes\<close> are decoded as UTF-8 first, which for
  ASCII bytes gives the same characters; anything else is a \<^verbatim>\<open>TypeError\<close>.
\<close>

definition py_json_loads :: "pyval \<Rightarrow> exn + pyval" where
  "py_json_loads obj =
     (case obj of
        PStr s \<Rightarrow> json_decode s
      | PBytes b \<Rightarrow>
          if list_all (\<lambda>c. 0 < (of_char c :: nat) \<and> (of_char c :: nat) < 128) b
          then json_decode b
          else Inl (CodecError ''bytes outside ASCII'')
      | _ \<Rightarrow> Inl (CodecError ''the JSON object must be str, bytes or bytearray''))"

subsection \<open>Notions used to state the properties\<close>

text \<open>The coming executor call ends in an exception.\<close>

definition next_fails :: "world \<Rightarrow> bool" where
  "next_fails w = (case pending w of Fail e # ocs \<Rightarrow> True | _ \<Rightarrow> False)"

text \<open>The library call that \<^verbatim>\<open>_ser\<close> makes under the configured method, and its failure.\<close>

definition active_dumps :: "codec \<Rightarrow> storage \<Rightarrow> pyval \<Rightarrow> exn + pyval" where
  "active_dumps lib self obj =
     (if serializing_method self = ''pickle''
      then (case pickle_dumps lib obj of Inl e \<Rightarrow> Inl e | Inr b \<Rightarrow> Inr (PBytes b))
      else (case json_dumps lib obj of Inl e \<Rightarrow> Inl e | Inr s \<Rightarrow> Inr (PStr s)))"

definition ser_fails :: "codec \<Rightarrow> storage \<Rightarrow> pyval \<Rightarrow> bool" where
  "ser_fails lib self obj = isl (active_dumps lib self obj)"

text \<open>The library call that \<^verbatim>\<open>_dsr\<close> makes on a stored text under the configured method.\<close>

definition active_loads :: "codec \<Rightarrow> storage \<Rightarrow> string \<Rightarrow> exn + pyval" where
  "active_loads lib self s =
     (if serializing_method self = ''pickle'' then pickle_loads lib (PStr s)
      else json_loads lib (PStr s))"

text \<open>
  The contract of \<^verbatim>\<open>json\<close> on a value it can represent: \<^verbatim>\<open>json.dumps\<close> gives a text,
  never the empty one, and \<^verbatim>\<open>json.loads\<close> of that text gives an equal value back.
\<close>

definition json_roundtrips :: "codec \<Rightarrow> pyval \<Rightarrow> bool" where
  "json_roundtrips lib v =
     (case json_dumps lib v of
        Inl e \<Rightarrow> False
      | Inr s \<Rightarrow> s \<noteq> [] \<and> json_loads lib (PStr s) = Inr v)"

text \<open>The columns stored for a key; an absent row has neither.\<close>

definition stored_state :: "world \<Rightarrow> string \<Rightarrow> string option" where
  "stored_state w k = (case table w k of None \<Rightarrow> None | Some r \<Rightarrow> state_col r)"

definition stored_data :: "world \<Rightarrow> string \<Rightarrow> string option" where
  "stored_data w k = (case table w k of None \<Rightarrow> None | Some r \<Rightarrow> data_col r)"

text \<open>
  The dictionary that \<^verbatim>\<open>update_data\<close> merges into: the empty one for a falsy
  \<open>current_data\<close>, the fetched dictionary otherwise; any other value has no \<^verbatim>\<open>update\<close>.
\<close>

definition current_dict :: "pyval \<Rightarrow> (string \<times> pyval) list option" where
  "current_dict got =
     (if \<not> truthy got then Some []
      else (case got of PDict d \<Rightarrow> Some d | _ \<Rightarrow> None))"

text \<open>The text that \<^verbatim>\<open>set_state\<close> sends as \<^verbatim>\<open>$s\<close>: the state's name, or the empty text.\<close>

definition s_state_of :: "state_arg \<Rightarrow> string" where
  "s_state_of st = (case st of StateObj (Some s) \<Rightarrow> s | StateStr s \<Rightarrow> s | _ \<Rightarrow> [])"

text \<open>
  A dictionary of Python has no key twice: in the association list that stands for it, here
  and in every dictionary below it, the keys are distinct.
\<close>

fun distinct_keys :: "pyval \<Rightarrow> bool" where
  "distinct_keys (PList xs) = list_all distinct_keys xs"
| "distinct_keys (PDict kvs) =
     (distinct (map fst kvs) \<and> list_all (\<lambda>p. distinct_keys (snd p)) kvs)"
| "distinct_keys v = True"

text \<open>
  What can follow the text of a value inside a JSON text (nothing, a comma, a closing
  bracket or brace), and how the text of a value starts (no white space, no closing
  bracket).
\<close>

definition value_end :: "string \<Rightarrow> bool" where
  "value_end rest =
     (case rest of [] \<Rightarrow> True | c # r \<Rightarrow> c = CHR '','' \<or> c = CHR '']'' \<or> c = CHR ''}'')"

definition value_start :: "string \<Rightarrow> bool" where
  "value_start t = (case t of [] \<Rightarrow> False | c # r \<Rightarrow> \<not> is_ws c \<and> c \<noteq> CHR '']'')"

subsection \<open>Concrete instances\<close>

text \<open>
  A storage in the default \<^verbatim>\<open>json\<close> mode, a key, a starting world over given rows and
  coming outcomes, and a codec that knows the JSON texts of a few values and fails on
  everything else, as \<^verbatim>\<open>json\<close> fails on an object it cannot serialize.
\<close>

definition demo_storage :: storage where
  "demo_storage =
     \<lparr>driver = None, session_pool = GivenPool 0, table_name = ''fsm_storage'',
      serializing_method = ''json''\<rparr>"

definition demo_key :: StorageKey where
  "demo_key = \<lparr>bot_id = 1, chat_id = 2, user_id = 3\<rparr>"

definition start_world :: "(string \<rightharpoonup> row) \<Rightarrow> outcome list \<Rightarrow> world" where
  "start_world t ocs =
     \<lparr>table = t, pending = ocs, issued = [], logged = [], loop_running = False\<rparr>"

definition demo_texts :: "(pyval \<times> string) list" where
  \<open>demo_texts =
     [(PNone, ''null''),
      (PDict [], ''{}''),
      (PDict [(''a'', PInt 1)], ''{"a": 1}''),
      (PDict [(''b'', PInt 2)], ''{"b": 2}''),
      (PDict [(''a'', PInt 1), (''b'', PInt 2)], ''{"a": 1, "b": 2}''),
      (PList [PInt 1], ''[1]'')]\<close>

definition demo_codec :: codec where
  "demo_codec =
     \<lparr>json_dumps =
        (\<lambda>v. case map_of demo_texts v of
               Some s \<Rightarrow> Inr s
             | None \<Rightarrow> Inl (CodecError ''Object is not JSON serializable'')),
      json_loads =
        (\<lambda>obj. case obj of
             PStr s \<Rightarrow>
               (case map_of (map (\<lambda>(v, t). (t, v)) demo_texts) s of
                  Some v \<Rightarrow> Inr v
                | None \<Rightarrow> Inl (CodecError ''Expecting value''))
           | _ \<Rightarrow> Inl (CodecError ''the JSON object must be str, bytes or bytearray'')),
      pickle_dumps = (\<lambda>v. Inl (CodecError ''cannot pickle object'')),
      pickle_loads = (\<lambda>obj. Inl (CodecError ''a bytes-like object is required''))\<rparr>"


text \<open>
  Stored texts: the JSON texts of the dictionaries \<^verbatim>\<open>{"a": 1}\<close> and \<^verbatim>\<open>{"b": 2}\<close>, and
  a text that is not JSON. Rows for the key above that hold them in the \<^verbatim>\<open>data\<close> column, and rows whose
  \<^verbatim>\<open>data\<close> column holds the JSON text \<^verbatim>\<open>null\<close> or the JSON text of a list.
\<close>

definition text_a :: string where
  \<open>text_a = ''{"a": 1}''\<close>

definition text_b :: string where
  \<open>text_b = ''{"b": 2}''\<close>

definition text_broken :: string where
  \<open>text_broken = ''{"a": ''\<close>

definition rows_a :: "string \<rightharpoonup> row" where
  "rows_a = [''1:2:3'' \<mapsto> \<lparr>state_col = Some ''busy'', data_col = Some text_a\<rparr>]"

definition rows_null :: "string \<rightharpoonup> row" where
  "rows_null = [''1:2:3'' \<mapsto> \<lparr>state_col = None, data_col = Some ''null''\<rparr>]"

definition rows_list :: "string \<rightharpoonup> row" where
  "rows_list = [''1:2:3'' \<mapsto> \<lparr>state_col = None, data_col = Some ''[1]''\<rparr>]"

definition rows_broken :: "string \<rightharpoonup> row" where
  "rows_broken = [''1:2:3'' \<mapsto> \<lparr>state_col = None, data_col = Some text_broken\<rparr>]"




definition spaced_text :: string where
  \<open>spaced_text = '' { "a" : 1 ,"a":[ 2, "x" ] } ''\<close>

section \<open>Properties\<close>

subsection \<open>Decimal texts and the derived key\<close>

lemma digit_inj: "a < 10 \<Longrightarrow> b < 10 \<Longrightarrow> digit a = digit b \<Longrightarrow> a = b"
  unfolding digit_def by (simp add: nth_eq_iff_index_eq)

lemma digit_set: "n < 10 \<Longrightarrow> digit n \<in> set ''0123456789''"
  unfolding digit_def by (rule nth_mem) simp

lemma str_nat_ne: "str_nat n \<noteq> []"
  by (subst str_nat.simps) simp

lemma str_nat_inj: "str_nat m = str_nat n \<Longrightarrow> m = n"
proof (induction m arbitrary: n rule: str_nat.induct)
  case (1 m)
  show ?case
  proof (cases "m < 10")
    case True
    then have m: "str_nat m = [digit m]" by (subst str_nat.simps) simp
    show ?thesis
    proof (cases "n < 10")
      case n: True
      then have "str_nat n = [digit n]" by (subst str_nat.simps) simp
      with m "1.prems" True n show ?thesis by (simp add: digit_inj)
    next
      case n: False
      then have "str_nat n = str_nat (n div 10) @ [digit (n mod 10)]"
        by (subst str_nat.simps) simp
      with m "1.prems" str_nat_ne [of "n div 10"] show ?thesis by simp
    qed
  next
    case False
    then have m: "str_nat m = str_nat (m div 10) @ [digit (m mod 10)]"
      by (subst str_nat.simps) simp
    show ?thesis
    proof (cases "n < 10")
      case n: True
      then have "str_nat n = [digit n]" by (subst str_nat.simps) simp
      with m "1.prems" str_nat_ne [of "m div 10"] show ?thesis by simp
    next
      case n: False
      then have "str_nat n = str_nat (n div 10) @ [digit (n mod 10)]"
        by (subst str_nat.simps) simp
      with m "1.prems" have a: "str_nat (m div 10) = str_nat (n div 10)"
        and b: "digit (m mod 10) = digit (n mod 10)" by simp_all
      from "1.IH" [OF False a] have c: "m div 10 = n div 10" .
      from b have d: "m mod 10 = n mod 10" by (intro digit_inj) simp_all
      have "m = 10 * (m div 10) + m mod 10" by simp
      also have "\<dots> = 10 * (n div 10) + n mod 10" using c d by simp
      also have "\<dots> = n" by simp
      finally show ?thesis .
    qed
  qed
qed

lemma digit_not_sep: "n < 10 \<Longrightarrow> digit n \<noteq> CHR '':'' \<and> digit n \<noteq> CHR ''-''"
proof -
  assume "n < 10"
  then have "digit n \<in> set ''0123456789''" by (rule digit_set)
  then show ?thesis by auto
qed

lemma str_nat_no_sep: "CHR '':'' \<notin> set (str_nat n) \<and> CHR ''-'' \<notin> set (str_nat n)"
proof (induction n rule: str_nat.induct)
  case (1 n)
  show ?case
  proof (cases "n < 10")
    case True
    then show ?thesis using digit_not_sep [of n] by (subst (1 2) str_nat.simps) auto
  next
    case False
    then show ?thesis using 1 digit_not_sep [of "n mod 10"]
      by (subst (1 2) str_nat.simps) auto
  qed
qed

lemma str_int_no_colon: "CHR '':'' \<notin> set (str_int i)"
  using str_nat_no_sep by (simp add: str_int_def)

lemma str_nat_no_minus: "str_nat n \<noteq> CHR ''-'' # s"
proof
  assume "str_nat n = CHR ''-'' # s"
  then have "CHR ''-'' \<in> set (str_nat n)" by simp
  with str_nat_no_sep show False by blast
qed

lemma str_int_inj: "str_int i = str_int j \<Longrightarrow> i = j"
proof -
  assume h: "str_int i = str_int j"
  show "i = j"
  proof (cases "i < 0")
    case i: True
    show ?thesis
    proof (cases "j < 0")
      case True
      with i h have "str_nat (nat (- i)) = str_nat (nat (- j))" by (simp add: str_int_def)
      then have "nat (- i) = nat (- j)" by (rule str_nat_inj)
      with i True show ?thesis by simp
    next
      case False
      with i h have "str_nat (nat j) = CHR ''-'' # str_nat (nat (- i))" by (simp add: str_int_def)
      then show ?thesis using str_nat_no_minus by blast
    qed
  next
    case i: False
    show ?thesis
    proof (cases "j < 0")
      case True
      with i h have "str_nat (nat i) = CHR ''-'' # str_nat (nat (- j))" by (simp add: str_int_def)
      then show ?thesis using str_nat_no_minus by blast
    next
      case False
      with i h have "str_nat (nat i) = str_nat (nat j)" by (simp add: str_int_def)
      then have "nat i = nat j" by (rule str_nat_inj)
      with i False show ?thesis by simp
    qed
  qed
qed

lemma split_at_sep:
  "c \<notin> set a \<Longrightarrow> c \<notin> set a' \<Longrightarrow> a @ c # r = a' @ c # r' \<Longrightarrow> a = a' \<and> r = r'"
proof (induction a arbitrary: a')
  case Nil
  then show ?case by (cases a') auto
next
  case (Cons x a)
  then show ?case by (cases a') auto
qed

lemma key_inj: "key a = key b \<Longrightarrow> a = b"
proof -
  assume h: "key a = key b"
  let ?ra = "str_int (chat_id a) @ CHR '':'' # str_int (user_id a)"
  let ?rb = "str_int (chat_id b) @ CHR '':'' # str_int (user_id b)"
  from h have "str_int (bot_id a) @ CHR '':'' # ?ra = str_int (bot_id b) @ CHR '':'' # ?rb"
    by (simp add: key_def)
  from split_at_sep [OF str_int_no_colon str_int_no_colon this]
  have 1: "str_int (bot_id a) = str_int (bot_id b)" and r: "?ra = ?rb" by simp_all
  from split_at_sep [OF str_int_no_colon str_int_no_colon r]
  have 2: "str_int (chat_id a) = str_int (chat_id b)"
    and 3: "str_int (user_id a) = str_int (user_id b)" by simp_all
  from 1 2 3 have "bot_id a = bot_id b" "chat_id a = chat_id b" "user_id a = user_id b"
    by (simp_all add: str_int_inj)
  then show "a = b" by simp
qed

lemma str_nat_small: "n < 10 \<Longrightarrow> str_nat n = [digit n]"
  by (subst str_nat.simps) simp

lemma str_nat_big: "\<not> n < 10 \<Longrightarrow> str_nat n = str_nat (n div 10) @ [digit (n mod 10)]"
  by (subst str_nat.simps) simp

lemma key_example: "key \<lparr>bot_id = 42, chat_id = - 100123, user_id = 7\<rparr> = ''42:-100123:7''"
  by (simp add: key_def str_int_def str_nat_small str_nat_big digit_def)

lemma key_demo: "key demo_key = ''1:2:3''"
  by (simp add: key_def demo_key_def str_int_def str_nat_small digit_def)

text \<open>
  C3. For every triple of bot, chat and user identifier, \<^verbatim>\<open>_key\<close> is the text
  \<^verbatim>\<open>"{bot_id}:{chat_id}:{user_id}"\<close> of the three decimal representations, and two
  keys are equal exactly when the triples are: distinct triples have distinct keys.
\<close>

theorem key_format_injective:
  "key k = str_int (bot_id k) @ '':'' @ str_int (chat_id k) @ '':'' @ str_int (user_id k)
   \<and> (key a = key b) = (a = b)"
  using key_inj [of a b] by (auto simp: key_def)


subsection \<open>The query executor\<close>

lemma logger_error_simps [simp]:
  "table (logger_error m w) = table w"
  "pending (logger_error m w) = pending w"
  "issued (logger_error m w) = issued w"
  "logged (logger_error m w) = logged w @ [m]"
  "loop_running (logger_error m w) = loop_running w"
  by (simp_all add: logger_error_def)

lemma start_world_simps:
  "table (start_world t ocs) = t"
  "pending (start_world t ocs) = ocs"
  "issued (start_world t ocs) = []"
  "logged (start_world t ocs) = []"
  "loop_running (start_world t ocs) = False"
  by (simp_all add: start_world_def)

lemma execute_query_fail:
  "pending w = Fail e # ocs \<Longrightarrow>
   execute_query q w = (Inl e, w\<lparr>issued := issued w @ [q], pending := ocs\<rparr>)"
  by (simp add: execute_query_def next_outcome_def)

lemma execute_query_idle:
  "pending w = [] \<Longrightarrow>
   execute_query q w =
     (case run_stmt q (table w) of
        Inl e \<Rightarrow> (Inl e, w\<lparr>issued := issued w @ [q]\<rparr>)
      | Inr (rows, t) \<Rightarrow> (Inr rows, w\<lparr>issued := issued w @ [q], table := t\<rparr>))"
  by (simp add: execute_query_def next_outcome_def split: sum.splits)

lemma execute_query_table:
  "table (snd (execute_query q w)) =
     (if next_fails w then table w
      else (case run_stmt q (table w) of Inl e \<Rightarrow> table w | Inr (rows, t) \<Rightarrow> t))"
  by (simp add: execute_query_def next_outcome_def next_fails_def
      split: list.splits outcome.splits sum.splits prod.splits)

lemma next_fails_idle: "pending w = [] \<Longrightarrow> \<not> next_fails w"
  by (simp add: next_fails_def)

lemma run_stmt_state_frame:
  "run_stmt (UpsertState k v) t = Inr (rows, t') \<Longrightarrow>
   (case t' k' of None \<Rightarrow> None | Some r \<Rightarrow> data_col r) =
   (case t k' of None \<Rightarrow> None | Some r \<Rightarrow> data_col r)"
  by (cases "k' = k") (auto simp: upsert_row_def split: sum.splits option.splits)

lemma run_stmt_data_frame:
  "run_stmt (UpsertData k v) t = Inr (rows, t') \<Longrightarrow>
   (case t' k' of None \<Rightarrow> None | Some r \<Rightarrow> state_col r) =
   (case t k' of None \<Rightarrow> None | Some r \<Rightarrow> state_col r)"
  by (cases "k' = k") (auto simp: upsert_row_def split: sum.splits option.splits)

lemma execute_select_data:
  "execute_query (SelectData k) w =
     (case pending w of
        Fail e # ocs \<Rightarrow> (Inl e, w\<lparr>issued := issued w @ [SelectData k], pending := ocs\<rparr>)
      | _ \<Rightarrow>
          (Inr (case table w k of None \<Rightarrow> [] | Some r \<Rightarrow> [data_col r]),
           w\<lparr>issued := issued w @ [SelectData k], pending := tl (pending w)\<rparr>))"
  by (cases w) (simp add: execute_query_def next_outcome_def
      split: list.splits outcome.splits option.splits)

lemma execute_upsert_rejected:
  "utf8_param v = Inl e0 \<Longrightarrow>
   \<exists>e. execute_query (UpsertData k v) w =
     (Inl e, w\<lparr>issued := issued w @ [UpsertData k v], pending := tl (pending w)\<rparr>)"
  by (cases w) (auto simp: execute_query_def next_outcome_def split: list.splits outcome.splits)

subsection \<open>State\<close>

lemma set_state_unfold:
  "set_state self k st w =
     (case execute_query (UpsertState (key k) (PStr (s_state_of st))) w of
        (Inr rows, w1) \<Rightarrow> (Inr PNone, w1)
      | (Inl e, w1) \<Rightarrow> (Inr PNone, logger_error (''FSM Storage error: '' @ exn_str e) w1))"
  by (cases st) (auto simp: set_state_def s_state_of_def Let_def split: option.splits)

lemma set_state_result: "fst (set_state self k st w) = Inr PNone"
  by (simp add: set_state_unfold split: prod.splits sum.splits)

lemma set_state_table:
  "table (snd (set_state self k st w)) =
   table (snd (execute_query (UpsertState (key k) (PStr (s_state_of st))) w))"
  by (simp add: set_state_unfold split: prod.splits sum.splits)

lemma set_state_frame: "stored_data (snd (set_state self k st w)) k' = stored_data w k'"
  unfolding stored_data_def set_state_table execute_query_table
  by (simp split: sum.splits prod.splits add: run_stmt_state_frame)

lemma set_state_stored:
  "pending w = [] \<Longrightarrow>
   stored_state (snd (set_state self k st w)) (key k) = Some (s_state_of st)
   \<and> pending (snd (set_state self k st w)) = []"
  by (simp add: set_state_unfold execute_query_idle utf8_param_def upsert_row_def stored_state_def
      split: option.splits)

lemma get_state_unfold:
  "get_state self k w =
     (case execute_query (SelectState (key k)) w of
        (Inr rows, w1) \<Rightarrow> (Inr (case rows of [] \<Rightarrow> PNone | r # rs \<Rightarrow> column_value r), w1)
      | (Inl e, w1) \<Rightarrow> (Inr PNone, logger_error (''FSM Storage error: '' @ exn_str e) w1))"
  by (simp add: get_state_def)

lemma get_state_result:
  "fst (get_state self k w) =
     Inr (if next_fails w then PNone
          else (case stored_state w (key k) of None \<Rightarrow> PNone | Some s \<Rightarrow> PStr s))"
  by (simp add: get_state_def execute_query_def next_outcome_def next_fails_def stored_state_def
      column_value_def split: list.splits outcome.splits option.splits)

text \<open>
  C2 (as the code has it). \<^verbatim>\<open>get_state\<close> returns \<^verbatim>\<open>None\<close> when the executor fails,
  when no row exists for the derived key and when the row's \<^verbatim>\<open>state\<close> column is NULL;
  otherwise it returns the stored text as it is. \<^verbatim>\<open>set_state(k, None)\<close> stores the empty
  text, so on a healthy backend the \<^verbatim>\<open>get_state(k)\<close> that follows returns the empty text
  \<^verbatim>\<open>""\<close>, not \<^verbatim>\<open>None\<close>.
\<close>

theorem get_state_null_or_text:
  "fst (get_state self k w) =
     Inr (if next_fails w then PNone
          else (case stored_state w (key k) of None \<Rightarrow> PNone | Some s \<Rightarrow> PStr s))
   \<and> (pending w = [] \<longrightarrow>
        fst (get_state self k (snd (set_state self k NoState w))) = Inr (PStr []))"
  using set_state_stored [of w self k NoState]
  by (simp add: get_state_result next_fails_idle s_state_of_def)

theorem get_state_null_or_text_witness:
  "pending (start_world Map.empty []) = []
   \<and> fst (get_state demo_storage demo_key (start_world Map.empty [])) = Inr PNone
   \<and> fst (get_state demo_storage demo_key (start_world rows_null [])) = Inr PNone
   \<and> fst (get_state demo_storage demo_key (start_world rows_a [])) = Inr (PStr ''busy'')
   \<and> fst (get_state demo_storage demo_key
        (snd (set_state demo_storage demo_key NoState (start_world Map.empty []))))
       = Inr (PStr [])"
  using get_state_null_or_text [of demo_storage demo_key "start_world Map.empty []"]
    get_state_null_or_text [of demo_storage demo_key "start_world rows_null []"]
    get_state_null_or_text [of demo_storage demo_key "start_world rows_a []"]
  by (simp add: next_fails_def start_world_simps stored_state_def key_demo rows_null_def rows_a_def)

text \<open>
  The claim as stated fails: after \<^verbatim>\<open>set_state(k, None)\<close> on an empty table and a
  healthy backend, \<^verbatim>\<open>get_state(k)\<close> is the empty text and not \<^verbatim>\<open>None\<close>.
\<close>

theorem set_state_none_get_state_counterexample:
  "fst (get_state demo_storage demo_key
     (snd (set_state demo_storage demo_key NoState (start_world Map.empty []))))
   = Inr (PStr []) \<and>
   fst (get_state demo_storage demo_key
     (snd (set_state demo_storage demo_key NoState (start_world Map.empty []))))
   \<noteq> Inr PNone"
  by (simp add: get_state_def set_state_def execute_query_def next_outcome_def start_world_def
      utf8_param_def upsert_row_def column_value_def Let_def)

subsection \<open>The json module reads back what it wrote\<close>

text \<open>
  The decimal digits and the hexadecimal digits are read back as the numbers they were
  written from; \<^verbatim>\<open>scanstring\<close> reads an escaped string back; the number scanner reads the
  decimal text of an integer back; and, by induction on the value, the decoder reads the
  text of every JSON value back, whatever follows it inside a JSON text.
\<close>

lemma below_10: "k < 10 \<Longrightarrow> k \<in> set [0, 1, 2, 3, 4, 5, 6, 7, 8, 9 :: nat]"
  by (simp, arith)

lemma below_16:
  "k < 16 \<Longrightarrow> k \<in> set [0, 1, 2, 3, 4, 5, 6, 7, 8, 9, 10, 11, 12, 13, 14, 15 :: nat]"
  by (simp, arith)

lemma of_char_digit: "n < 10 \<Longrightarrow> (of_char (digit n) :: nat) = 48 + n"
  using below_10 [of n] by (auto simp: digit_def)

lemma is_digit_digit: "n < 10 \<Longrightarrow> is_digit (digit n)"
  by (simp add: is_digit_def of_char_digit)

lemma digit_zero_iff: "n < 10 \<Longrightarrow> digit n = CHR ''0'' \<longleftrightarrow> n = 0"
  using below_10 [of n] by (auto simp: digit_def)

lemma digit_not_minus: "n < 10 \<Longrightarrow> digit n \<noteq> CHR ''-''"
  using below_10 [of n] by (auto simp: digit_def)

lemma hexval_hexdigit: "n < 16 \<Longrightarrow> hexval (hexdigit n) = Some n"
  using below_16 [of n] by (auto simp: hexdigit_def hexval_def is_digit_def)

lemma hexval_zero: "hexval (CHR ''0'') = Some 0"
  by (simp add: hexval_def is_digit_def)

lemma hex4_escape:
  "n < 256 \<Longrightarrow> hex4 (CHR ''0'') (CHR ''0'') (hexdigit (n div 16)) (hexdigit (n mod 16)) = Some n"
  by (simp add: hex4_def hexval_zero hexval_hexdigit)

lemma cons_result_Some [simp]: "cons_result c (Some (u, rest)) = Some (c # u, rest)"
  by (simp add: cons_result_def)

lemma scan_string_quote: "scan_string (CHR 0x22 # rest) = Some ([], rest)"
  by simp

lemma scan_string_plain:
  "c \<noteq> CHR 0x22 \<Longrightarrow> c \<noteq> CHR 0x5C \<Longrightarrow> 32 \<le> (of_char c :: nat) \<Longrightarrow>
   scan_string (c # t) = cons_result c (scan_string t)"
  by simp

lemma scan_string_short:
  "e \<noteq> CHR ''u'' \<Longrightarrow> unescape e = Some ch \<Longrightarrow>
   scan_string (CHR 0x5C # e # t) = cons_result ch (scan_string t)"
  by simp

lemma scan_string_hex:
  "hex4 h1 h2 h3 h4 = Some n \<Longrightarrow> n < 256 \<Longrightarrow>
   scan_string (CHR 0x5C # CHR ''u'' # h1 # h2 # h3 # h4 # t) = cons_result (char_of n) (scan_string t)"
  by simp

lemma scan_escape: "scan_string (escape_char c @ t) = cons_result c (scan_string t)"
proof -
  have n: "(of_char c :: nat) < 256" by simp
  consider (q) "c = CHR 0x22" | (b) "c = CHR 0x5C" | (n) "c = CHR 0x0A" | (r) "c = CHR 0x0D"
    | (t) "c = CHR 0x09" | (bs) "c = CHR 0x08" | (f) "c = CHR 0x0C"
    | (plain) "c \<noteq> CHR 0x22" "c \<noteq> CHR 0x5C" "c \<noteq> CHR 0x0A" "c \<noteq> CHR 0x0D" "c \<noteq> CHR 0x09"
        "c \<noteq> CHR 0x08" "c \<noteq> CHR 0x0C" "32 \<le> (of_char c :: nat) \<and> (of_char c :: nat) \<le> 126"
    | (hex) "c \<noteq> CHR 0x22" "c \<noteq> CHR 0x5C" "c \<noteq> CHR 0x0A" "c \<noteq> CHR 0x0D" "c \<noteq> CHR 0x09"
        "c \<noteq> CHR 0x08" "c \<noteq> CHR 0x0C" "\<not> (32 \<le> (of_char c :: nat) \<and> (of_char c :: nat) \<le> 126)"
    by blast
  then show ?thesis
  proof cases
    case q
    have "scan_string (CHR 0x5C # CHR 0x22 # t) = cons_result (CHR 0x22) (scan_string t)"
      by (rule scan_string_short) (simp_all add: unescape_def)
    with q show ?thesis by (simp add: escape_char_def del: scan_string.simps)
  next
    case b
    have "scan_string (CHR 0x5C # CHR 0x5C # t) = cons_result (CHR 0x5C) (scan_string t)"
      by (rule scan_string_short) (simp_all add: unescape_def)
    with b show ?thesis by (simp add: escape_char_def del: scan_string.simps)
  next
    case n
    have "scan_string (CHR 0x5C # CHR ''n'' # t) = cons_result (CHR 0x0A) (scan_string t)"
      by (rule scan_string_short) (simp_all add: unescape_def)
    with n show ?thesis by (simp add: escape_char_def del: scan_string.simps)
  next
    case r
    have "scan_string (CHR 0x5C # CHR ''r'' # t) = cons_result (CHR 0x0D) (scan_string t)"
      by (rule scan_string_short) (simp_all add: unescape_def)
    with r show ?thesis by (simp add: escape_char_def del: scan_string.simps)
  next
    case t
    have "scan_string (CHR 0x5C # CHR ''t'' # t) = cons_result (CHR 0x09) (scan_string t)"
      by (rule scan_string_short) (simp_all add: unescape_def)
    with t show ?thesis by (simp add: escape_char_def del: scan_string.simps)
  next
    case bs
    have "scan_string (CHR 0x5C # CHR ''b'' # t) = cons_result (CHR 0x08) (scan_string t)"
      by (rule scan_string_short) (simp_all add: unescape_def)
    with bs show ?thesis by (simp add: escape_char_def del: scan_string.simps)
  next
    case f
    have "scan_string (CHR 0x5C # CHR ''f'' # t) = cons_result (CHR 0x0C) (scan_string t)"
      by (rule scan_string_short) (simp_all add: unescape_def)
    with f show ?thesis by (simp add: escape_char_def del: scan_string.simps)
  next
    case plain
    then have "escape_char c = [c]" by (simp add: escape_char_def)
    moreover have "scan_string (c # t) = cons_result c (scan_string t)"
      using plain by (intro scan_string_plain) simp_all
    ultimately show ?thesis by (simp del: scan_string.simps)
  next
    case hex
    then have e: "escape_char c = [CHR 0x5C, CHR ''u'', CHR ''0'', CHR ''0'',
            hexdigit ((of_char c :: nat) div 16), hexdigit ((of_char c :: nat) mod 16)]"
      by (simp add: escape_char_def)
    have "scan_string (CHR 0x5C # CHR ''u'' # CHR ''0'' # CHR ''0'' #
            hexdigit ((of_char c :: nat) div 16) # hexdigit ((of_char c :: nat) mod 16) # t)
          = cons_result (char_of (of_char c :: nat)) (scan_string t)"
      by (rule scan_string_hex [OF hex4_escape [OF n] n])
    with e show ?thesis by (simp del: scan_string.simps)
  qed
qed

lemma scan_string_escaped:
  "scan_string (concat (map escape_char s) @ CHR 0x22 # rest) = Some (s, rest)"
proof (induction s)
  case Nil
  show ?case by (simp add: scan_string_quote del: scan_string.simps)
next
  case (Cons c s)
  have "scan_string (concat (map escape_char (c # s)) @ CHR 0x22 # rest)
      = scan_string (escape_char c @ (concat (map escape_char s) @ CHR 0x22 # rest))"
    by simp
  also have "\<dots> = cons_result c (scan_string (concat (map escape_char s) @ CHR 0x22 # rest))"
    by (rule scan_escape)
  finally show ?case by (simp add: Cons.IH del: scan_string.simps)
qed

lemma scan_string_quoted:
  "quote s @ rest = CHR 0x22 # t \<Longrightarrow> scan_string t = Some (s, rest)"
  using scan_string_escaped [of s rest] by (simp add: quote_def del: scan_string.simps)

lemma str_nat_digits: "x \<in> set (str_nat n) \<Longrightarrow> is_digit x"
proof (induction n arbitrary: x rule: str_nat.induct)
  case (1 n)
  show ?case
  proof (cases "n < 10")
    case True
    with "1.prems" show ?thesis by (simp add: str_nat_small is_digit_digit)
  next
    case False
    with "1.prems" have "x \<in> set (str_nat (n div 10)) \<or> x = digit (n mod 10)"
      by (auto simp: str_nat_big)
    then show ?thesis
    proof
      assume "x \<in> set (str_nat (n div 10))"
      with False show ?thesis by (rule "1.IH")
    next
      assume "x = digit (n mod 10)"
      then show ?thesis by (simp add: is_digit_digit)
    qed
  qed
qed

lemma nat_of_digits_snoc:
  "nat_of_digits (ds @ [c]) = 10 * nat_of_digits ds + (of_char c - 48)"
  by (simp add: nat_of_digits_def)

lemma nat_of_digits_str_nat: "nat_of_digits (str_nat n) = n"
proof (induction n rule: str_nat.induct)
  case (1 n)
  show ?case
  proof (cases "n < 10")
    case True
    then show ?thesis by (simp add: str_nat_small nat_of_digits_def of_char_digit)
  next
    case False
    then have "nat_of_digits (str_nat (n div 10)) = n div 10" by (rule "1.IH")
    with False show ?thesis
      by (simp add: str_nat_big nat_of_digits_snoc of_char_digit)
  qed
qed

lemma hd_str_nat: "0 < n \<Longrightarrow> hd (str_nat n) \<noteq> CHR ''0''"
proof (induction n rule: str_nat.induct)
  case (1 n)
  show ?case
  proof (cases "n < 10")
    case True
    with "1.prems" show ?thesis by (simp add: str_nat_small digit_zero_iff)
  next
    case False
    then have "0 < n div 10" by simp
    with False have "hd (str_nat (n div 10)) \<noteq> CHR ''0''" by (rule "1.IH")
    with False show ?thesis by (simp add: str_nat_big str_nat_ne)
  qed
qed

lemma str_nat_zero: "str_nat 0 = ''0''"
  by (simp add: str_nat_small digit_def)

lemma hd_str_nat_digit: "is_digit (hd (str_nat n))"
  using str_nat_digits [of "hd (str_nat n)" n] str_nat_ne [of n] by simp

lemma hd_str_nat_not_minus: "hd (str_nat n) \<noteq> CHR ''-''"
  using str_nat_no_sep [of n] str_nat_ne [of n] hd_in_set [of "str_nat n"] by metis

lemma takeWhile_digits:
  assumes "rest = [] \<or> \<not> is_digit (hd rest)"
  shows "takeWhile is_digit (str_nat n @ rest) = str_nat n"
    and "dropWhile is_digit (str_nat n @ rest) = rest"
proof -
  from assms have t: "takeWhile is_digit rest = []" and d: "dropWhile is_digit rest = rest"
    by (cases rest; auto)+
  show "takeWhile is_digit (str_nat n @ rest) = str_nat n"
    using takeWhile_append2 [of "str_nat n" is_digit rest] str_nat_digits t by simp
  show "dropWhile is_digit (str_nat n @ rest) = rest"
    using dropWhile_append2 [of "str_nat n" is_digit rest] str_nat_digits d by simp
qed

lemma scan_nat_str_nat:
  assumes "rest = [] \<or> \<not> is_digit (hd rest)"
  shows "scan_nat (str_nat n @ rest) = Some (n, rest)"
proof (cases "n = 0")
  case True
  then show ?thesis by (simp add: str_nat_zero scan_nat_def)
next
  case False
  obtain c t where ct: "str_nat n = c # t" using str_nat_ne [of n] by (cases "str_nat n") auto
  from False hd_str_nat [of n] ct have c0: "c \<noteq> CHR ''0''" by simp
  from hd_str_nat_digit [of n] ct have cd: "is_digit c" by simp
  have "scan_nat (str_nat n @ rest) =
      Some (nat_of_digits (takeWhile is_digit (str_nat n @ rest)),
            dropWhile is_digit (str_nat n @ rest))"
    unfolding scan_nat_def using ct c0 cd by simp
  then show ?thesis
    by (simp only: takeWhile_digits [OF assms] nat_of_digits_str_nat)
qed

lemma value_end_number:
  assumes "value_end rest"
  shows "rest = [] \<or> \<not> is_digit (hd rest)" and "\<not> is_frac rest" and "\<not> is_exp rest"
  using assms
  by (cases rest; auto simp: value_end_def is_digit_def is_frac_def is_exp_def split: list.splits)+

lemma scan_number_str_int:
  assumes "value_end rest"
  shows "scan_number (str_int i @ rest) = Some (PInt i, rest)"
proof (cases "i < 0")
  case True
  then have "str_int i @ rest = CHR ''-'' # (str_nat (nat (- i)) @ rest)"
    by (simp add: str_int_def)
  moreover have "scan_nat (str_nat (nat (- i)) @ rest) = Some (nat (- i), rest)"
    by (rule scan_nat_str_nat [OF value_end_number(1) [OF assms]])
  ultimately show ?thesis
    using True value_end_number(2,3) [OF assms] by (simp add: scan_number_def)
next
  case False
  obtain c t where ct: "str_nat (nat i) = c # t"
    using str_nat_ne [of "nat i"] by (cases "str_nat (nat i)") auto
  from hd_str_nat_not_minus [of "nat i"] ct have cm: "c \<noteq> CHR ''-''" by simp
  from False have s: "str_int i @ rest = c # (t @ rest)" by (simp add: str_int_def ct)
  have n: "scan_nat (c # (t @ rest)) = Some (nat i, rest)"
    using scan_nat_str_nat [OF value_end_number(1) [OF assms], of "nat i"] ct by simp
  show ?thesis
    unfolding s scan_number_def using cm n False value_end_number(2,3) [OF assms] by simp
qed

lemma skip_ws_start: "\<not> is_ws c \<Longrightarrow> skip_ws (c # t) = c # t"
  by (simp add: skip_ws_def)

lemma skip_ws_space: "skip_ws (CHR '' '' # t) = skip_ws t"
  by (simp add: skip_ws_def is_ws_def)

lemma skip_ws_value_start: "value_start t \<Longrightarrow> skip_ws t = t"
  by (cases t) (simp_all add: value_start_def skip_ws_def)

lemma skip_ws_value_end: "value_end t \<Longrightarrow> skip_ws t = t"
  by (cases t) (auto simp: value_end_def skip_ws_def is_ws_def)

lemma value_start_append: "value_start t \<Longrightarrow> value_start (t @ r)"
  by (cases t) (simp_all add: value_start_def)

lemma value_start_quote: "value_start (quote s)"
  by (simp add: value_start_def quote_def is_ws_def)

lemma is_digit_start: "is_digit c \<Longrightarrow> \<not> is_ws c \<and> c \<noteq> CHR '']''"
  by (auto simp: is_digit_def is_ws_def)

lemma value_start_str_int: "value_start (str_int i)"
proof -
  obtain c t where ct: "str_nat (nat \<bar>i\<bar>) = c # t"
    using str_nat_ne [of "nat \<bar>i\<bar>"] by (cases "str_nat (nat \<bar>i\<bar>)") auto
  from hd_str_nat_digit [of "nat \<bar>i\<bar>"] ct have "is_digit c" by simp
  then have "\<not> is_ws c \<and> c \<noteq> CHR '']''" by (rule is_digit_start)
  with ct show ?thesis
    by (cases "i < 0") (simp_all add: str_int_def value_start_def is_ws_def abs_if)
qed

lemma value_start_json_text: "json_value v \<Longrightarrow> value_start (json_text v)"
  by (cases v) (simp_all add: value_start_str_int value_start_quote, simp_all add: value_start_def is_ws_def)

lemma join_Cons: "xs \<noteq> [] \<Longrightarrow> join sep (x # xs) = x @ sep @ join sep xs"
  by (cases xs) simp_all

lemma parse_value_null: "parse_value (Suc n) (''null'' @ rest) = Some (PNone, rest)"
  by simp

lemma parse_value_true: "parse_value (Suc n) (''true'' @ rest) = Some (PBool True, rest)"
  by simp

lemma parse_value_false: "parse_value (Suc n) (''false'' @ rest) = Some (PBool False, rest)"
  by simp

lemma parse_value_string: "parse_value (Suc n) (quote s @ rest) = Some (PStr s, rest)"
  by (simp add: quote_def scan_string_escaped del: scan_string.simps)

lemma str_int_start:
  obtains c t where "str_int i = c # t" and "is_digit c \<or> c = CHR ''-''"
proof (cases "i < 0")
  case True
  then have "str_int i = CHR ''-'' # str_nat (nat (- i))" by (simp add: str_int_def)
  then show ?thesis using that by blast
next
  case False
  obtain c t where ct: "str_nat (nat i) = c # t"
    using str_nat_ne [of "nat i"] by (cases "str_nat (nat i)") auto
  from hd_str_nat_digit [of "nat i"] ct have "is_digit c" by simp
  with False ct show ?thesis using that by (simp add: str_int_def)
qed

lemma parse_value_number:
  assumes "is_digit c \<or> c = CHR ''-''"
  shows "parse_value (Suc n) (c # t) = scan_number (c # t)"
proof -
  from assms have "c \<noteq> CHR 0x22 \<and> c \<noteq> CHR ''{'' \<and> c \<noteq> CHR ''['' \<and> c \<noteq> CHR ''n''
      \<and> c \<noteq> CHR ''t'' \<and> c \<noteq> CHR ''f''"
    by (auto simp: is_digit_def)
  then show ?thesis by simp
qed

lemma parse_value_int:
  assumes "value_end rest"
  shows "parse_value (Suc n) (str_int i @ rest) = Some (PInt i, rest)"
proof -
  obtain c t where ct: "str_int i = c # t" and c: "is_digit c \<or> c = CHR ''-''"
    by (rule str_int_start)
  have "parse_value (Suc n) (c # (t @ rest)) = scan_number (c # (t @ rest))"
    by (rule parse_value_number [OF c])
  with scan_number_str_int [OF assms, of i] ct show ?thesis by simp
qed

lemma parse_value_empty_list: "parse_value (Suc n) (''[]'' @ rest) = Some (PList [], rest)"
  by (simp add: skip_ws_def is_ws_def)

lemma parse_value_empty_dict: "parse_value (Suc n) (''{}'' @ rest) = Some (PDict [], rest)"
  by (simp add: skip_ws_def is_ws_def)

lemma parse_value_list:
  assumes "value_start t" and "parse_items n t = Some (xs, rest)"
  shows "parse_value (Suc n) (CHR ''['' # t) = Some (PList xs, rest)"
proof -
  from assms(1) obtain c r where t: "t = c # r" and c: "\<not> is_ws c" "c \<noteq> CHR '']''"
    by (cases t) (auto simp: value_start_def)
  from c have "skip_ws (c # r) = c # r" by (simp add: skip_ws_def)
  with assms(2) t c show ?thesis
    by (simp del: parse_items.simps)
qed

lemma parse_value_dict:
  assumes "parse_pairs n (CHR 0x22 # t) = Some (kvs, rest)"
  shows "parse_value (Suc n) (CHR ''{'' # CHR 0x22 # t) = Some (PDict (dict_update [] kvs), rest)"
proof -
  have "skip_ws (CHR 0x22 # t) = CHR 0x22 # t" by (simp add: skip_ws_def is_ws_def)
  with assms show ?thesis
    by (simp del: parse_pairs.simps)
qed

lemma parse_items_last:
  assumes "parse_value n s = Some (v, CHR '']'' # rest)"
  shows "parse_items (Suc n) s = Some ([v], rest)"
  using assms by (simp add: skip_ws_def is_ws_def del: parse_value.simps)

lemma parse_items_more:
  assumes "parse_value n s = Some (v, CHR '','' # CHR '' '' # t)"
    and "value_start t" and "parse_items n t = Some (vs, rest)"
  shows "parse_items (Suc n) s = Some (v # vs, rest)"
proof -
  have a: "skip_ws (CHR '','' # CHR '' '' # t) = CHR '','' # CHR '' '' # t"
    by (simp add: skip_ws_def is_ws_def)
  have b: "skip_ws (CHR '' '' # t) = t"
    using skip_ws_value_start [OF assms(2)] by (simp add: skip_ws_space)
  from assms(1,3) a b show ?thesis
    by (subst parse_items.simps) (simp del: parse_value.simps parse_items.simps)
qed

lemma parse_pairs_last:
  assumes "scan_string s = Some (k, CHR '':'' # CHR '' '' # t)"
    and "value_start t" and "parse_value n t = Some (v, CHR ''}'' # rest)"
  shows "parse_pairs (Suc n) (CHR 0x22 # s) = Some ([(k, v)], rest)"
proof -
  have a: "skip_ws (CHR '':'' # CHR '' '' # t) = CHR '':'' # CHR '' '' # t"
    by (simp add: skip_ws_def is_ws_def)
  have b: "skip_ws (CHR '' '' # t) = t"
    using skip_ws_value_start [OF assms(2)] by (simp add: skip_ws_space)
  have c: "skip_ws (CHR ''}'' # rest) = CHR ''}'' # rest"
    by (simp add: skip_ws_def is_ws_def)
  from assms(1,3) a b c show ?thesis
    by (simp del: parse_value.simps scan_string.simps)
qed

lemma parse_pairs_more:
  assumes "scan_string s = Some (k, CHR '':'' # CHR '' '' # t)"
    and "value_start t" and "parse_value n t = Some (v, CHR '','' # CHR '' '' # CHR 0x22 # u)"
    and "parse_pairs n (CHR 0x22 # u) = Some (kvs, rest)"
  shows "parse_pairs (Suc n) (CHR 0x22 # s) = Some ((k, v) # kvs, rest)"
proof -
  have a: "skip_ws (CHR '':'' # CHR '' '' # t) = CHR '':'' # CHR '' '' # t"
    by (simp add: skip_ws_def is_ws_def)
  have b: "skip_ws (CHR '' '' # t) = t"
    using skip_ws_value_start [OF assms(2)] by (simp add: skip_ws_space)
  have c: "skip_ws (CHR '','' # CHR '' '' # CHR 0x22 # u) = CHR '','' # CHR '' '' # CHR 0x22 # u"
    by (simp add: skip_ws_def is_ws_def)
  have d: "skip_ws (CHR '' '' # CHR 0x22 # u) = CHR 0x22 # u"
    by (simp add: skip_ws_def is_ws_def)
  from assms(1,3,4) a b c d show ?thesis
    by (subst parse_pairs.simps)
      (simp del: parse_value.simps parse_pairs.simps scan_string.simps)
qed

lemma dict_setitem_fresh: "k \<notin> fst ` set d \<Longrightarrow> dict_setitem k v d = d @ [(k, v)]"
  by (induction d) auto

lemma dict_update_fresh:
  "distinct (map fst (d @ kvs)) \<Longrightarrow> dict_update d kvs = d @ kvs"
proof (induction kvs arbitrary: d)
  case Nil
  show ?case by simp
next
  case (Cons p kvs)
  obtain k v where p: "p = (k, v)" by (cases p)
  from Cons.prems p have f: "k \<notin> fst ` set d" by auto
  from Cons.prems p have "distinct (map fst ((d @ [(k, v)]) @ kvs))" by auto
  then have "dict_update (d @ [(k, v)]) kvs = (d @ [(k, v)]) @ kvs" by (rule Cons.IH)
  with p f show ?case by (simp add: dict_setitem_fresh)
qed

lemma dict_update_distinct: "distinct (map fst kvs) \<Longrightarrow> dict_update [] kvs = kvs"
  using dict_update_fresh [of "[]" kvs] by simp

lemma value_start_join:
  assumes "xs \<noteq> []" and "\<And>x. x \<in> set xs \<Longrightarrow> json_value x"
  shows "value_start (join '', '' (map json_text xs) @ r)"
proof -
  from assms(1) obtain y ys where xs: "xs = y # ys" by (cases xs) auto
  with assms(2) have "value_start (json_text y)" by (simp add: value_start_json_text)
  then have "value_start (json_text y @ r')" for r' by (rule value_start_append)
  with xs show ?thesis by (cases ys) simp_all
qed

lemma parse_items_join:
  "xs \<noteq> [] \<Longrightarrow>
   (\<And>x n rest. x \<in> set xs \<Longrightarrow> length (json_text x) \<le> n \<Longrightarrow> value_end rest \<Longrightarrow>
      parse_value n (json_text x @ rest) = Some (x, rest)) \<Longrightarrow>
   (\<And>x. x \<in> set xs \<Longrightarrow> json_value x) \<Longrightarrow>
   length (join '', '' (map json_text xs)) < n \<Longrightarrow>
   parse_items n (join '', '' (map json_text xs) @ CHR '']'' # rest) = Some (xs, rest)"
proof (induction xs arbitrary: n rule: list_nonempty_induct)
  case (single x)
  from single.prems(3) obtain m where n: "n = Suc m" and m: "length (json_text x) \<le> m"
    by (cases n) simp_all
  have "parse_value m (json_text x @ CHR '']'' # rest) = Some (x, CHR '']'' # rest)"
    by (rule single.prems(1)) (simp_all add: m value_end_def)
  then have "parse_items (Suc m) (json_text x @ CHR '']'' # rest) = Some ([x], rest)"
    by (rule parse_items_last)
  with n show ?case by simp
next
  case (cons x xs)
  let ?t = "join '', '' (map json_text xs) @ CHR '']'' # rest"
  from cons.hyps have j: "join '', '' (map json_text (x # xs))
      = json_text x @ '', '' @ join '', '' (map json_text xs)"
    by (simp add: join_Cons)
  with cons.prems(3) obtain m where n: "n = Suc m" and m: "length (json_text x) \<le> m"
    and m': "length (join '', '' (map json_text xs)) < m"
    by (cases n) simp_all
  have pv: "parse_value m (json_text x @ CHR '','' # CHR '' '' # ?t)
      = Some (x, CHR '','' # CHR '' '' # ?t)"
    by (rule cons.prems(1)) (simp_all add: m value_end_def)
  have vs: "value_start ?t"
    by (rule value_start_join [OF cons.hyps]) (simp add: cons.prems(2))
  have ih: "parse_items m ?t = Some (xs, rest)"
    by (rule cons.IH [OF _ _ m']) (simp_all add: cons.prems(1,2))
  have "parse_items (Suc m) (json_text x @ CHR '','' # CHR '' '' # ?t) = Some (x # xs, rest)"
    by (rule parse_items_more [OF pv vs ih])
  with n j show ?case by simp
qed

lemma member_start:
  "\<exists>u. (quote k @ r) = CHR 0x22 # u"
  by (simp add: quote_def)

lemma join_members_start:
  assumes "kvs \<noteq> []"
  shows "\<exists>u. join '', '' (map (\<lambda>p. quote (fst p) @ '': '' @ json_text (snd p)) kvs) @ r
            = CHR 0x22 # u"
proof -
  from assms obtain p ps where kvs: "kvs = p # ps" by (cases kvs) auto
  then show ?thesis by (cases ps) (simp_all add: quote_def)
qed

lemma scan_string_member:
  "scan_string (concat (map escape_char k) @ CHR 0x22 # CHR '':'' # CHR '' '' # t)
     = Some (k, CHR '':'' # CHR '' '' # t)"
  by (rule scan_string_escaped)

lemma member_text:
  "(quote k @ '': '' @ tv) @ r
     = CHR 0x22 # (concat (map escape_char k) @ CHR 0x22 # CHR '':'' # CHR '' '' # (tv @ r))"
  by (simp add: quote_def)

lemma parse_pairs_join:
  "kvs \<noteq> [] \<Longrightarrow>
   (\<And>p n rest. p \<in> set kvs \<Longrightarrow> length (json_text (snd p)) \<le> n \<Longrightarrow> value_end rest \<Longrightarrow>
      parse_value n (json_text (snd p) @ rest) = Some (snd p, rest)) \<Longrightarrow>
   (\<And>p. p \<in> set kvs \<Longrightarrow> json_value (snd p)) \<Longrightarrow>
   length (join '', '' (map (\<lambda>p. quote (fst p) @ '': '' @ json_text (snd p)) kvs)) < n \<Longrightarrow>
   parse_pairs n
     (join '', '' (map (\<lambda>p. quote (fst p) @ '': '' @ json_text (snd p)) kvs) @ CHR ''}'' # rest)
     = Some (kvs, rest)"
proof (induction kvs arbitrary: n rule: list_nonempty_induct)
  case (single p)
  obtain k v where p: "p = (k, v)" by (cases p)
  from single.prems(3) p obtain m where n: "n = Suc m" and m: "length (json_text v) \<le> m"
    by (cases n) simp_all
  have pv: "parse_value m (json_text v @ CHR ''}'' # rest) = Some (v, CHR ''}'' # rest)"
    using single.prems(1) [of p m "CHR ''}'' # rest"] p m by (simp add: value_end_def)
  have vs: "value_start (json_text v @ CHR ''}'' # rest)"
    using single.prems(2) [of p] p by (simp add: value_start_json_text value_start_append)
  have "parse_pairs (Suc m)
      (CHR 0x22 # (concat (map escape_char k) @ CHR 0x22 # CHR '':'' # CHR '' '' #
         (json_text v @ CHR ''}'' # rest))) = Some ([(k, v)], rest)"
    by (rule parse_pairs_last [OF scan_string_member vs pv])
  with n p show ?case by (simp add: quote_def del: parse_pairs.simps)
next
  case (cons p kvs)
  let ?mem = "\<lambda>p. quote (fst p) @ '': '' @ json_text (snd p)"
  obtain k v where p: "p = (k, v)" by (cases p)
  obtain u where u: "join '', '' (map ?mem kvs) @ CHR ''}'' # rest = CHR 0x22 # u"
    using join_members_start [OF cons.hyps, of "CHR ''}'' # rest"] by blast
  from cons.hyps have j: "join '', '' (map ?mem (p # kvs))
      = ?mem p @ '', '' @ join '', '' (map ?mem kvs)"
    by (simp add: join_Cons)
  with cons.prems(3) p obtain m where n: "n = Suc m" and m: "length (json_text v) \<le> m"
    and m': "length (join '', '' (map ?mem kvs)) < m"
    by (cases n) simp_all
  have pv: "parse_value m (json_text v @ CHR '','' # CHR '' '' # CHR 0x22 # u)
      = Some (v, CHR '','' # CHR '' '' # CHR 0x22 # u)"
    using cons.prems(1) [of p m "CHR '','' # CHR '' '' # CHR 0x22 # u"] p m
    by (simp add: value_end_def)
  have vs: "value_start (json_text v @ CHR '','' # CHR '' '' # CHR 0x22 # u)"
    using cons.prems(2) [of p] p by (simp add: value_start_json_text value_start_append)
  have "parse_pairs m (join '', '' (map ?mem kvs) @ CHR ''}'' # rest) = Some (kvs, rest)"
    by (rule cons.IH [OF _ _ m']) (simp_all add: cons.prems(1,2))
  with u have ih: "parse_pairs m (CHR 0x22 # u) = Some (kvs, rest)" by simp
  have "parse_pairs (Suc m)
      (CHR 0x22 # (concat (map escape_char k) @ CHR 0x22 # CHR '':'' # CHR '' '' #
         (json_text v @ CHR '','' # CHR '' '' # CHR 0x22 # u))) = Some ((k, v) # kvs, rest)"
    by (rule parse_pairs_more [OF scan_string_member vs pv ih])
  moreover have "join '', '' (map ?mem (p # kvs)) @ CHR ''}'' # rest
      = CHR 0x22 # (concat (map escape_char k) @ CHR 0x22 # CHR '':'' # CHR '' '' #
         (json_text v @ CHR '','' # CHR '' '' # CHR 0x22 # u))"
    using j p u by (simp add: quote_def)
  ultimately show ?case using n p by (simp del: parse_pairs.simps)
qed

lemma json_text_ne: "json_value v \<Longrightarrow> json_text v \<noteq> []"
  using value_start_json_text [of v] by (auto simp: value_start_def)

lemma quote_length: "2 \<le> length (quote s)"
  by (simp add: quote_def)

lemma parse_value_json_text:
  "json_value v \<Longrightarrow> distinct_keys v \<Longrightarrow> length (json_text v) \<le> n \<Longrightarrow> value_end rest \<Longrightarrow>
   parse_value n (json_text v @ rest) = Some (v, rest)"
proof (induction v arbitrary: n rest rule: json_text.induct)
  case 1
  then obtain m where "n = Suc m" by (cases n) simp_all
  then show ?case using parse_value_null [of m rest] by (simp del: parse_value.simps)
next
  case (2 b)
  then obtain m where "n = Suc m" by (cases n) (simp_all split: if_splits)
  then show ?case
    using parse_value_true [of m rest] parse_value_false [of m rest]
    by (cases b) (simp_all del: parse_value.simps)
next
  case (3 i)
  from json_text_ne [of "PInt i"] "3.prems"(3) obtain m where "n = Suc m"
    by (cases n) simp_all
  then show ?case
    using parse_value_int [OF "3.prems"(4), of m i] by (simp del: parse_value.simps)
next
  case (4 s)
  from quote_length [of s] "4.prems"(3) obtain m where "n = Suc m"
    by (cases n) simp_all
  then show ?case using parse_value_string [of m s rest] by (simp del: parse_value.simps)
next
  case (5 xs)
  show ?case
  proof (cases "xs = []")
    case True
    with "5.prems"(3) obtain m where "n = Suc m" by (cases n) simp_all
    with True show ?thesis
      using parse_value_empty_list [of m rest] by (simp del: parse_value.simps)
  next
    case False
    let ?t = "join '', '' (map json_text xs) @ CHR '']'' # rest"
    from "5.prems"(3) obtain m where n: "n = Suc m"
      and m: "length (join '', '' (map json_text xs)) < m"
      by (cases n) simp_all
    have jv: "json_value x" if "x \<in> set xs" for x
      using "5.prems"(1) that by (simp add: list_all_iff)
    have dk: "distinct_keys x" if "x \<in> set xs" for x
      using "5.prems"(2) that by (simp add: list_all_iff)
    have items: "parse_items m ?t = Some (xs, rest)"
    proof (rule parse_items_join [OF False _ _ m])
      fix x n' rest'
      assume "x \<in> set xs" "length (json_text x) \<le> n'" "value_end rest'"
      then show "parse_value n' (json_text x @ rest') = Some (x, rest')"
        using "5.IH" [of x n' rest'] jv dk by blast
    next
      fix x assume "x \<in> set xs" then show "json_value x" by (rule jv)
    qed
    have vs: "value_start ?t" by (rule value_start_join [OF False]) (rule jv)
    have "parse_value (Suc m) (CHR ''['' # ?t) = Some (PList xs, rest)"
      by (rule parse_value_list [OF vs items])
    with n show ?thesis by (simp del: parse_value.simps)
  qed
next
  case (6 kvs)
  let ?mem = "\<lambda>p. quote (fst p) @ '': '' @ json_text (snd p)"
  show ?case
  proof (cases "kvs = []")
    case True
    with "6.prems"(3) obtain m where "n = Suc m" by (cases n) simp_all
    with True show ?thesis
      using parse_value_empty_dict [of m rest] by (simp del: parse_value.simps)
  next
    case False
    from "6.prems"(3) obtain m where n: "n = Suc m"
      and m: "length (join '', '' (map ?mem kvs)) < m"
      by (cases n) simp_all
    have jv: "json_value (snd p)" if "p \<in> set kvs" for p
      using "6.prems"(1) that by (simp add: list_all_iff)
    have dk: "distinct_keys (snd p)" if "p \<in> set kvs" for p
      using "6.prems"(2) that by (simp add: list_all_iff)
    from "6.prems"(2) have d: "dict_update [] kvs = kvs" by (simp add: dict_update_distinct)
    obtain u where u: "join '', '' (map ?mem kvs) @ CHR ''}'' # rest = CHR 0x22 # u"
      using join_members_start [OF False, of "CHR ''}'' # rest"] by blast
    have "parse_pairs m (join '', '' (map ?mem kvs) @ CHR ''}'' # rest) = Some (kvs, rest)"
    proof (rule parse_pairs_join [OF False _ _ m])
      fix p n' rest'
      assume "p \<in> set kvs" "length (json_text (snd p)) \<le> n'" "value_end rest'"
      then show "parse_value n' (json_text (snd p) @ rest') = Some (snd p, rest')"
        using "6.IH" [of p n' rest'] jv dk by blast
    next
      fix p assume "p \<in> set kvs" then show "json_value (snd p)" by (rule jv)
    qed
    with u have "parse_pairs m (CHR 0x22 # u) = Some (kvs, rest)" by simp
    then have "parse_value (Suc m) (CHR ''{'' # CHR 0x22 # u)
        = Some (PDict (dict_update [] kvs), rest)"
      by (rule parse_value_dict)
    with n u d show ?thesis by (simp del: parse_value.simps)
  qed
qed simp_all

lemma json_decode_json_text:
  assumes "json_value v" and "distinct_keys v"
  shows "json_decode (json_text v) = Inr v"
proof -
  have s: "skip_ws (json_text v) = json_text v"
    by (rule skip_ws_value_start [OF value_start_json_text [OF assms(1)]])
  have "parse_value (Suc (length (json_text v))) (json_text v @ []) = Some (v, [])"
    by (rule parse_value_json_text [OF assms]) (simp_all add: value_end_def)
  with s show ?thesis by (simp add: json_decode_def skip_ws_def del: parse_value.simps)
qed

lemma py_json_roundtrips:
  assumes "json_dumps lib = py_json_dumps" and "json_loads lib = py_json_loads"
    and "json_value v" and "distinct_keys v"
  shows "json_roundtrips lib v"
  using assms json_decode_json_text [OF assms(3,4)] json_text_ne [OF assms(3)]
  by (simp add: json_roundtrips_def py_json_dumps_def py_json_loads_def)




lemma skip_ws_simps:
  "skip_ws [] = []"
  "skip_ws (c # t) = (if is_ws c then skip_ws t else c # t)"
  by (simp_all add: skip_ws_def)

lemma loads_spaced:
  "py_json_loads (PStr spaced_text) = Inr (PDict [(''a'', PList [PInt 2, PStr ''x''])])"
  by (simp add: py_json_loads_def json_decode_def spaced_text_def skip_ws_simps is_ws_def
      scan_number_def scan_nat_def is_digit_def is_frac_def is_exp_def nat_of_digits_def
      cons_result_def unescape_def)

lemma loads_trailing_comma: "isl (py_json_loads (PStr ''[1,]''))"
  by (simp add: py_json_loads_def json_decode_def skip_ws_simps is_ws_def
      scan_number_def scan_nat_def is_digit_def is_frac_def is_exp_def nat_of_digits_def
      cons_result_def unescape_def)

subsection \<open>The codec wrappers\<close>

lemma ser_unfold:
  "ser lib self d w =
     (case active_dumps lib self d of
        Inr v \<Rightarrow> (v, w)
      | Inl e \<Rightarrow> (PNone, logger_error (''Serializing error! '' @ exn_str e) w))"
  by (simp add: ser_def active_dumps_def)

lemma ser_world_table [simp]: "table (snd (ser lib self d w)) = table w"
  and ser_world_pending [simp]: "pending (snd (ser lib self d w)) = pending w"
  and ser_world_issued [simp]: "issued (snd (ser lib self d w)) = issued w"
  by (simp_all add: ser_def split: sum.splits)

lemma next_fails_ser [simp]: "next_fails (snd (ser lib self d w)) = next_fails w"
  by (simp add: next_fails_def)

lemma ser_failed:
  "ser_fails lib self d \<Longrightarrow>
   \<exists>w0 l. ser lib self d w = (PNone, w0) \<and> table w0 = table w \<and> issued w0 = issued w
     \<and> logged w0 = logged w @ [l]"
  by (auto simp: ser_fails_def ser_unfold split: sum.splits)

lemma dsr_column:
  "dsr lib self (column_value c) w =
     (case c of
        None \<Rightarrow> (PNone, w)
      | Some s \<Rightarrow>
          (if s = [] then (PNone, w)
           else (case active_loads lib self s of
                   Inr v \<Rightarrow> (v, w)
                 | Inl e \<Rightarrow>
                     (PNone,
                      logger_error
                        (''Deserializing error! Probably, unsupported serializing method was used. ''
                           @ exn_str e) w))))"
  by (simp add: dsr_def column_value_def active_loads_def split: option.splits)

lemma dsr_world [simp]:
  "table (snd (dsr lib self obj w)) = table w"
  "pending (snd (dsr lib self obj w)) = pending w"
  "issued (snd (dsr lib self obj w)) = issued w"
  by (simp_all add: dsr_def split: sum.splits)

lemma demo_json_mode: "serializing_method demo_storage \<noteq> ''pickle''"
  by (simp add: demo_storage_def)

lemma demo_ser_fails: "ser_fails demo_codec demo_storage (PObject 0)"
  by (simp add: ser_fails_def active_dumps_def demo_codec_def demo_storage_def demo_texts_def)

lemma demo_roundtrips:
  "json_roundtrips demo_codec (PDict [(''a'', PInt 1), (''b'', PInt 2)])"
  "json_roundtrips demo_codec PNone"
  by (simp_all add: json_roundtrips_def demo_codec_def demo_texts_def)



subsection \<open>Data\<close>

lemma set_data_unfold:
  "set_data lib self k d w =
     (case execute_query (UpsertData (key k) (fst (ser lib self d w))) (snd (ser lib self d w)) of
        (Inr rows, w1) \<Rightarrow> (Inr PNone, w1)
      | (Inl e, w1) \<Rightarrow> (Inr PNone, logger_error (''FSM Storage error: '' @ exn_str e) w1))"
  by (simp add: set_data_def Let_def split: prod.splits)

lemma set_data_result: "fst (set_data lib self k d w) = Inr PNone"
  by (simp add: set_data_unfold split: prod.splits sum.splits)

lemma set_data_table:
  "table (snd (set_data lib self k d w)) =
   table (snd (execute_query (UpsertData (key k) (fst (ser lib self d w))) (snd (ser lib self d w))))"
  by (simp add: set_data_unfold split: prod.splits sum.splits)

lemma set_data_frame: "stored_state (snd (set_data lib self k d w)) k' = stored_state w k'"
  unfolding stored_state_def set_data_table execute_query_table
  by (simp split: sum.splits prod.splits add: run_stmt_data_frame)

lemma set_data_failed_table:
  "next_fails w \<Longrightarrow> table (snd (set_data lib self k d w)) = table w"
  by (simp add: set_data_table execute_query_table)

lemma set_data_stored:
  assumes "pending w = []" and "active_dumps lib self v = Inr (PStr s)"
  shows "stored_data (snd (set_data lib self k v w)) (key k) = Some s"
    and "pending (snd (set_data lib self k v w)) = []"
  using assms
  by (simp_all add: set_data_unfold ser_unfold execute_query_idle utf8_param_def upsert_row_def
      stored_data_def)

lemma rejected_write:
  assumes "ser_fails lib self d"
  shows "table (snd (set_data lib self k d w)) = table w"
    and "issued (snd (set_data lib self k d w)) = issued w @ [UpsertData (key k) PNone]"
    and "\<exists>l1 l2. logged (snd (set_data lib self k d w)) = logged w @ [l1, l2]"
proof -
  from ser_failed [OF assms] obtain w0 l where
    s: "ser lib self d w = (PNone, w0)" and w0: "table w0 = table w" "issued w0 = issued w"
      "logged w0 = logged w @ [l]"
    by blast
  have "utf8_param PNone = Inl (BackendError ''parameter does not match the declared type Utf8'')"
    by (simp add: utf8_param_def)
  from execute_upsert_rejected [OF this] obtain e' where
    q: "execute_query (UpsertData (key k) PNone) w0 =
        (Inl e', w0\<lparr>issued := issued w0 @ [UpsertData (key k) PNone], pending := tl (pending w0)\<rparr>)"
    by blast
  show "table (snd (set_data lib self k d w)) = table w"
    by (simp add: set_data_unfold s q w0)
  show "issued (snd (set_data lib self k d w)) = issued w @ [UpsertData (key k) PNone]"
    by (simp add: set_data_unfold s q w0)
  show "\<exists>l1 l2. logged (snd (set_data lib self k d w)) = logged w @ [l1, l2]"
    by (simp add: set_data_unfold s q w0)
qed

lemma get_data_unfold:
  "get_data lib self k w =
     (case execute_query (SelectData (key k)) w of
        (Inr rows, w1) \<Rightarrow>
          (case rows of
             [] \<Rightarrow> (Inr PNone, w1)
           | r # rs \<Rightarrow> (Inr (fst (dsr lib self (column_value r) w1)),
                         snd (dsr lib self (column_value r) w1)))
      | (Inl e, w1) \<Rightarrow> (Inr PNone, logger_error (''FSM Storage error: '' @ exn_str e) w1))"
  by (simp add: get_data_def split: prod.splits sum.splits list.splits)

lemma get_data_result:
  "fst (get_data lib self k w) =
     Inr (if next_fails w then PNone
          else (case stored_data w (key k) of
                  None \<Rightarrow> PNone
                | Some s \<Rightarrow>
                    (if s = [] then PNone
                     else (case active_loads lib self s of Inr v \<Rightarrow> v | Inl e \<Rightarrow> PNone))))"
  by (simp add: get_data_unfold execute_select_data dsr_column next_fails_def stored_data_def
      split: list.splits outcome.splits option.splits sum.splits)

lemma get_data_table: "table (snd (get_data lib self k w)) = table w"
  by (simp add: get_data_unfold execute_select_data
      split: list.splits outcome.splits option.splits sum.splits)

lemma get_data_pending: "pending (snd (get_data lib self k w)) = tl (pending w)"
  by (simp add: get_data_unfold execute_select_data
      split: list.splits outcome.splits option.splits sum.splits)

lemma get_data_logged_quiet:
  "\<not> next_fails w \<Longrightarrow> stored_data w (key k) = None \<or> stored_data w (key k) = Some [] \<Longrightarrow>
   logged (snd (get_data lib self k w)) = logged w"
  by (auto simp: get_data_unfold execute_select_data dsr_column next_fails_def stored_data_def
      split: list.splits outcome.splits option.splits sum.splits)

lemma set_data_get_data:
  assumes "pending w = []" and "serializing_method self \<noteq> ''pickle''"
    and "json_roundtrips lib v"
  shows "fst (get_data lib self k (snd (set_data lib self k v w))) = Inr v"
proof -
  from assms(3) obtain s where s: "json_dumps lib v = Inr s" "s \<noteq> []"
    "json_loads lib (PStr s) = Inr v"
    by (auto simp: json_roundtrips_def split: sum.splits)
  from s(1) assms(2) have d: "active_dumps lib self v = Inr (PStr s)"
    by (simp add: active_dumps_def)
  from s(3) assms(2) have l: "active_loads lib self s = Inr v"
    by (simp add: active_loads_def)
  show ?thesis
    using set_data_stored [OF assms(1) d, of k] s(2) l
    by (simp add: get_data_result next_fails_def)
qed

lemma demo_loads_null: "active_loads demo_codec demo_storage ''null'' = Inr PNone"
  by (simp add: active_loads_def demo_codec_def demo_storage_def demo_texts_def)

lemma rows_null_stored: "stored_data (start_world rows_null []) (key demo_key) = Some ''null''"
  by (simp add: stored_data_def start_world_def rows_null_def key_demo)

lemma text_a_nonempty: "text_a \<noteq> []"
  by (simp add: text_a_def)

lemma demo_loads_a: "active_loads demo_codec demo_storage text_a = Inr (PDict [(''a'', PInt 1)])"
  by (simp add: active_loads_def demo_codec_def demo_storage_def demo_texts_def text_a_def)

lemma rows_a_stored: "stored_data (start_world rows_a ocs) (key demo_key) = Some text_a"
  by (simp add: stored_data_def start_world_def rows_a_def key_demo)

lemma demo_get_a:
  "fst (get_data demo_codec demo_storage demo_key (start_world rows_a [])) = Inr (PDict [(''a'', PInt 1)])"
  by (simp add: get_data_result rows_a_stored demo_loads_a next_fails_def start_world_simps
      text_a_nonempty)

lemma demo_get_a_then_fail:
  "fst (get_data demo_codec demo_storage demo_key (start_world rows_a [Ok, Fail e]))
     = Inr (PDict [(''a'', PInt 1)])"
  by (simp add: get_data_result rows_a_stored demo_loads_a next_fails_def start_world_simps
      text_a_nonempty)

text \<open>
  C1 (as the code has it). When the serialization of \<open>data\<close> fails under the configured
  method, \<^verbatim>\<open>set_data\<close> logs the failure and still hands the upsert to the executor, with
  \<^verbatim>\<open>None\<close> as the \<^verbatim>\<open>$d\<close> parameter. The parameter is declared \<^verbatim>\<open>Utf8\<close>, so the call
  fails whatever the backend's state; that failure is caught and logged too, the call
  returns \<^verbatim>\<open>None\<close>, and the table is left as it was.
\<close>

theorem set_data_unserializable:
  "ser_fails lib self d \<Longrightarrow>
   fst (set_data lib self k d w) = Inr PNone
   \<and> issued (snd (set_data lib self k d w)) = issued w @ [UpsertData (key k) PNone]
   \<and> table (snd (set_data lib self k d w)) = table w
   \<and> (\<exists>l1 l2. logged (snd (set_data lib self k d w)) = logged w @ [l1, l2])"
  using rejected_write [of lib self d k w] set_data_result [of lib self k d w]
  by simp

theorem set_data_unserializable_witness:
  "ser_fails demo_codec demo_storage (PObject 0)
   \<and> fst (set_data demo_codec demo_storage demo_key (PObject 0) (start_world rows_a [])) = Inr PNone
   \<and> issued (snd (set_data demo_codec demo_storage demo_key (PObject 0) (start_world rows_a [])))
       = [UpsertData ''1:2:3'' PNone]
   \<and> table (snd (set_data demo_codec demo_storage demo_key (PObject 0) (start_world rows_a [])))
       = rows_a"
  using set_data_unserializable [OF demo_ser_fails, of demo_key "start_world rows_a []"]
  by (simp add: demo_ser_fails key_demo start_world_simps)

text \<open>
  The claim as stated fails: for a value that cannot be serialized, a statement is handed
  to the executor all the same.
\<close>

theorem set_data_unserializable_counterexample:
  "ser_fails demo_codec demo_storage (PObject 0)
   \<and> issued (start_world rows_a []) = []
   \<and> issued (snd (set_data demo_codec demo_storage demo_key (PObject 0) (start_world rows_a [])))
       = [UpsertData ''1:2:3'' PNone]"
  by (simp add: demo_ser_fails rejected_write(2) key_demo start_world_simps)

text \<open>
  C6 (as the code has it). \<^verbatim>\<open>get_data\<close> returns \<^verbatim>\<open>None\<close> exactly when the executor call
  fails, no row exists for the key, the \<^verbatim>\<open>data\<close> column is NULL or the empty text, the
  deserialization of the stored text fails, or the stored text deserializes to
  \<^verbatim>\<open>None\<close> itself (the JSON text \<^verbatim>\<open>null\<close>). The caller sees the same \<^verbatim>\<open>None\<close> in all of
  them. An absent or empty text is no error: nothing is logged for it.
\<close>

theorem get_data_null_cases:
  "(fst (get_data lib self k w) = Inr PNone) =
     (next_fails w
      \<or> table w (key k) = None
      \<or> (\<exists>r. table w (key k) = Some r \<and> (data_col r = None \<or> data_col r = Some []))
      \<or> (\<exists>s. stored_data w (key k) = Some s \<and> isl (active_loads lib self s))
      \<or> (\<exists>s. stored_data w (key k) = Some s \<and> active_loads lib self s = Inr PNone))
   \<and> (\<not> next_fails w \<and> (stored_data w (key k) = None \<or> stored_data w (key k) = Some [])
      \<longrightarrow> logged (snd (get_data lib self k w)) = logged w)"
proof (intro conjI impI)
  show "(fst (get_data lib self k w) = Inr PNone) =
     (next_fails w
      \<or> table w (key k) = None
      \<or> (\<exists>r. table w (key k) = Some r \<and> (data_col r = None \<or> data_col r = Some []))
      \<or> (\<exists>s. stored_data w (key k) = Some s \<and> isl (active_loads lib self s))
      \<or> (\<exists>s. stored_data w (key k) = Some s \<and> active_loads lib self s = Inr PNone))"
    by (cases "table w (key k)")
      (auto simp: get_data_result stored_data_def split: option.splits sum.splits)
next
  assume "\<not> next_fails w \<and> (stored_data w (key k) = None \<or> stored_data w (key k) = Some [])"
  then show "logged (snd (get_data lib self k w)) = logged w"
    using get_data_logged_quiet [of w k lib self] by blast
qed

theorem get_data_null_cases_witness:
  "\<not> next_fails (start_world Map.empty [])
   \<and> stored_data (start_world Map.empty []) (key demo_key) = None
   \<and> fst (get_data demo_codec demo_storage demo_key (start_world Map.empty [])) = Inr PNone
   \<and> logged (snd (get_data demo_codec demo_storage demo_key (start_world Map.empty []))) = []"
  using get_data_null_cases [of demo_codec demo_storage demo_key "start_world Map.empty []"]
  by (simp add: next_fails_def start_world_def stored_data_def)

text \<open>
  The claim as stated fails: the row exists, its \<^verbatim>\<open>data\<close> column holds the non-empty
  text \<^verbatim>\<open>null\<close>, the executor answers and the deserialization succeeds, and yet
  \<^verbatim>\<open>get_data\<close> returns \<^verbatim>\<open>None\<close>.
\<close>

theorem get_data_null_blob_counterexample:
  "fst (get_data demo_codec demo_storage demo_key (start_world rows_null [])) = Inr PNone
   \<and> \<not> next_fails (start_world rows_null [])
   \<and> stored_data (start_world rows_null []) (key demo_key) = Some ''null''
   \<and> active_loads demo_codec demo_storage ''null'' = Inr PNone"
  by (simp add: get_data_result rows_null_stored demo_loads_null next_fails_def start_world_simps)

text \<open>
  C7. \<^verbatim>\<open>set_state\<close> leaves the \<^verbatim>\<open>data\<close> column of every key as it was, and
  \<^verbatim>\<open>set_data\<close> leaves the \<^verbatim>\<open>state\<close> column of every key as it was, whatever the
  arguments and whatever the executor does.
\<close>

theorem set_state_set_data_frame:
  "stored_data (snd (set_state self k st w)) k' = stored_data w k'
   \<and> stored_state (snd (set_data lib self k d w)) k' = stored_state w k'"
  by (simp add: set_state_frame set_data_frame)

subsection \<open>Merging\<close>

lemma case_result_const:
  "fst p = Inr y \<Longrightarrow>
   (case p of (Inl e, w2) \<Rightarrow> (Inl e, w2) | (Inr r, w2) \<Rightarrow> (Inr x, w2)) = (Inr x, snd p)"
  by (cases p) auto

lemma update_data_unfold:
  "update_data lib self k dd w =
     (case fst (get_data lib self k w) of
        Inl e \<Rightarrow> (Inl e, snd (get_data lib self k w))
      | Inr got \<Rightarrow>
          (case current_dict got of
             Some cur \<Rightarrow>
               (Inr (PDict (dict_update cur dd)),
                snd (set_data lib self k (PDict (dict_update cur dd)) (snd (get_data lib self k w))))
           | None \<Rightarrow> (Inl (AttributeError ''object has no attribute update''),
                       snd (get_data lib self k w))))"
proof (cases "get_data lib self k w")
  case (Pair r w1)
  show ?thesis
  proof (cases r)
    case (Inl e)
    with Pair show ?thesis by (simp add: update_data_def)
  next
    case (Inr got)
    note s = case_result_const [OF set_data_result]
    show ?thesis
    proof (cases "truthy got")
      case False
      with Pair Inr show ?thesis
        by (simp add: update_data_def current_dict_def Let_def s)
    next
      case True
      with Pair Inr show ?thesis
        by (cases got) (simp_all add: update_data_def current_dict_def Let_def s)
    qed
  qed
qed

lemma update_data_result:
  "\<exists>got. fst (get_data lib self k w) = Inr got \<and>
     fst (update_data lib self k dd w) =
       (case current_dict got of
          Some cur \<Rightarrow> Inr (PDict (dict_update cur dd))
        | None \<Rightarrow> Inl (AttributeError ''object has no attribute update''))"
  by (simp add: update_data_unfold get_data_result split: option.splits)

lemma update_data_failed_read:
  "next_fails w \<Longrightarrow> fst (update_data lib self k dd w) = Inr (PDict (dict_update [] dd))"
  by (simp add: update_data_unfold get_data_result current_dict_def)

lemma dict_setitem_lookup: "map_of (dict_setitem k v d) = (map_of d)(k \<mapsto> v)"
  by (induction d) auto

lemma dict_update_lookup:
  "distinct (map fst other) \<Longrightarrow> map_of (dict_update d other) = map_of d ++ map_of other"
proof (induction other arbitrary: d)
  case Nil
  then show ?case by simp
next
  case (Cons p other)
  obtain k v where p: "p = (k, v)" by (cases p)
  from Cons.prems p have k: "map_of other k = None" and dist: "distinct (map fst other)"
    by (auto simp: map_of_eq_None_iff)
  have "map_of (dict_update d (p # other)) = map_of (dict_setitem k v d) ++ map_of other"
    using Cons.IH [OF dist, of "dict_setitem k v d"] by (simp add: p)
  also have "\<dots> = (map_of d)(k \<mapsto> v) ++ map_of other"
    by (simp only: dict_setitem_lookup)
  also have "\<dots> = map_of d ++ map_of (p # other)"
    using k by (auto simp: p map_add_def fun_eq_iff split: option.splits)
  finally show ?case .
qed

text \<open>
  C5. \<^verbatim>\<open>update_data\<close> fetches the current data, takes the empty dictionary when there is
  none (\<open>current_dict\<close>), stores the items of the partial dictionary into it, so that a key
  of the partial dictionary overrides the same key of the current data and every other
  key stays, writes the merged dictionary with \<^verbatim>\<open>set_data\<close> and returns it. On a healthy
  backend, for a merged dictionary that \<^verbatim>\<open>json\<close> can represent, the \<^verbatim>\<open>get_data\<close> that
  follows returns the merged dictionary.
\<close>

theorem update_data_merges:
  assumes "fst (get_data lib self k w) = Inr got" and "current_dict got = Some cur"
    and "distinct (map fst dd)"
  shows "fst (update_data lib self k dd w) = Inr (PDict (dict_update cur dd))
     \<and> map_of (dict_update cur dd) = map_of cur ++ map_of dd
     \<and> snd (update_data lib self k dd w) =
         snd (set_data lib self k (PDict (dict_update cur dd)) (snd (get_data lib self k w)))
     \<and> (pending w = [] \<and> serializing_method self \<noteq> ''pickle''
          \<and> json_roundtrips lib (PDict (dict_update cur dd)) \<longrightarrow>
        fst (get_data lib self k (snd (update_data lib self k dd w)))
          = Inr (PDict (dict_update cur dd)))"
proof (intro conjI impI)
  show r: "fst (update_data lib self k dd w) = Inr (PDict (dict_update cur dd))"
    using assms(1,2) by (simp add: update_data_unfold)
  show "map_of (dict_update cur dd) = map_of cur ++ map_of dd"
    using assms(3) by (rule dict_update_lookup)
  show w': "snd (update_data lib self k dd w) =
      snd (set_data lib self k (PDict (dict_update cur dd)) (snd (get_data lib self k w)))"
    using assms(1,2) by (simp add: update_data_unfold)
  assume h: "pending w = [] \<and> serializing_method self \<noteq> ''pickle''
      \<and> json_roundtrips lib (PDict (dict_update cur dd))"
  then have "pending (snd (get_data lib self k w)) = []" by (simp add: get_data_pending)
  from set_data_get_data [OF this] h
  show "fst (get_data lib self k (snd (update_data lib self k dd w)))
      = Inr (PDict (dict_update cur dd))"
    by (simp add: w')
qed

theorem update_data_merges_witness:
  "fst (get_data demo_codec demo_storage demo_key (start_world rows_a [])) = Inr (PDict [(''a'', PInt 1)])
   \<and> current_dict (PDict [(''a'', PInt 1)]) = Some [(''a'', PInt 1)]
   \<and> distinct (map fst [(''b'', PInt 2)])
   \<and> fst (update_data demo_codec demo_storage demo_key [(''b'', PInt 2)] (start_world rows_a []))
       = Inr (PDict [(''a'', PInt 1), (''b'', PInt 2)])
   \<and> fst (get_data demo_codec demo_storage demo_key
        (snd (update_data demo_codec demo_storage demo_key [(''b'', PInt 2)] (start_world rows_a []))))
       = Inr (PDict [(''a'', PInt 1), (''b'', PInt 2)])"
proof -
  have g: "fst (get_data demo_codec demo_storage demo_key (start_world rows_a []))
      = Inr (PDict [(''a'', PInt 1)])"
    by (rule demo_get_a)
  have c: "current_dict (PDict [(''a'', PInt 1)]) = Some [(''a'', PInt 1)]"
    by (simp add: current_dict_def)
  have d: "distinct (map fst [(''b'', PInt 2)])" by simp
  have e: "dict_update [(''a'', PInt 1)] [(''b'', PInt 2)] = [(''a'', PInt 1), (''b'', PInt 2)]"
    by simp
  note m = update_data_merges [OF g c d, unfolded e]
  from m have r: "fst (update_data demo_codec demo_storage demo_key [(''b'', PInt 2)]
      (start_world rows_a [])) = Inr (PDict [(''a'', PInt 1), (''b'', PInt 2)])"
    by (rule conjunct1)
  from m demo_roundtrips(1) demo_json_mode start_world_simps(2) [of rows_a "[]"]
  have p: "fst (get_data demo_codec demo_storage demo_key
        (snd (update_data demo_codec demo_storage demo_key [(''b'', PInt 2)] (start_world rows_a []))))
       = Inr (PDict [(''a'', PInt 1), (''b'', PInt 2)])"
    by blast
  from g c d r p show ?thesis by blast
qed

text \<open>
  C10. \<^verbatim>\<open>update_data\<close> returns the merged dictionary also when the write fails, whether
  the executor fails or the merged dictionary cannot be serialized; the table is then as
  it was before the call, so the value returned does not say that it was stored.
\<close>

theorem update_data_returns_unpersisted:
  assumes "fst (get_data lib self k w) = Inr got" and "current_dict got = Some cur"
    and "next_fails (snd (get_data lib self k w)) \<or> ser_fails lib self (PDict (dict_update cur dd))"
  shows "fst (update_data lib self k dd w) = Inr (PDict (dict_update cur dd))
     \<and> table (snd (update_data lib self k dd w)) = table w"
proof
  show "fst (update_data lib self k dd w) = Inr (PDict (dict_update cur dd))"
    using assms(1,2) by (simp add: update_data_unfold)
  have "table (snd (set_data lib self k (PDict (dict_update cur dd)) (snd (get_data lib self k w))))
      = table (snd (get_data lib self k w))"
    using assms(3) set_data_failed_table rejected_write(1) by blast
  then show "table (snd (update_data lib self k dd w)) = table w"
    using assms(1,2) by (simp add: update_data_unfold get_data_table)
qed

theorem update_data_returns_unpersisted_witness:
  "fst (get_data demo_codec demo_storage demo_key
      (start_world rows_a [Ok, Fail (BackendError ''timeout'')])) = Inr (PDict [(''a'', PInt 1)])
   \<and> current_dict (PDict [(''a'', PInt 1)]) = Some [(''a'', PInt 1)]
   \<and> next_fails (snd (get_data demo_codec demo_storage demo_key
        (start_world rows_a [Ok, Fail (BackendError ''timeout'')])))
   \<and> fst (update_data demo_codec demo_storage demo_key [(''b'', PInt 2)]
        (start_world rows_a [Ok, Fail (BackendError ''timeout'')]))
       = Inr (PDict [(''a'', PInt 1), (''b'', PInt 2)])
   \<and> table (snd (update_data demo_codec demo_storage demo_key [(''b'', PInt 2)]
        (start_world rows_a [Ok, Fail (BackendError ''timeout'')]))) = rows_a"
proof -
  let ?w = "start_world rows_a [Ok, Fail (BackendError ''timeout'')]"
  have g: "fst (get_data demo_codec demo_storage demo_key ?w) = Inr (PDict [(''a'', PInt 1)])"
    by (rule demo_get_a_then_fail)
  have c: "current_dict (PDict [(''a'', PInt 1)]) = Some [(''a'', PInt 1)]"
    by (simp add: current_dict_def)
  have f: "next_fails (snd (get_data demo_codec demo_storage demo_key ?w))"
    by (simp add: next_fails_def get_data_pending start_world_simps)
  have e: "dict_update [(''a'', PInt 1)] [(''b'', PInt 2)] = [(''a'', PInt 1), (''b'', PInt 2)]"
    by simp
  from f have f': "next_fails (snd (get_data demo_codec demo_storage demo_key ?w))
      \<or> ser_fails demo_codec demo_storage (PDict (dict_update [(''a'', PInt 1)] [(''b'', PInt 2)]))"
    by (rule disjI1)
  note m = update_data_returns_unpersisted [OF g c f', unfolded e start_world_simps]
  from g c f m show ?thesis by blast
qed

subsection \<open>The bootstrap\<close>

lemma create_table_unfold:
  "create_table self w =
     (case pending w of
        Fail e # ocs \<Rightarrow>
          (Inr PNone,
           logger_error (''FSM Storage error: '' @ exn_str e)
             (w\<lparr>issued := issued w @ [CreateTable (table_name self)], pending := ocs\<rparr>))
      | _ \<Rightarrow>
          (Inr PNone,
           w\<lparr>issued := issued w @ [CreateTable (table_name self)], pending := tl (pending w)\<rparr>))"
  by (cases w) (simp add: create_table_def execute_scheme_def next_outcome_def
      split: list.splits outcome.splits)

lemma init_result:
  "fst (init dc sp m tn w) =
     Inr \<lparr>driver = (case dc of Some c \<Rightarrow> Some (Driver c) | None \<Rightarrow> None),
          session_pool =
            (case sp of
               None \<Rightarrow> SessionPool (case dc of Some c \<Rightarrow> Some (Driver c) | None \<Rightarrow> None)
             | Some p \<Rightarrow> p),
          table_name = tn,
          serializing_method = (if m = ''pickle'' then ''pickle'' else ''json'')\<rparr>"
  by (auto simp: init_def Let_def split: prod.splits sum.splits)

lemma init_logged:
  "next_fails w \<or> loop_running w \<Longrightarrow> \<exists>line. logged (snd (init dc sp m tn w)) = logged w @ [line]"
  by (auto simp: init_def Let_def asyncio_run_def create_table_unfold next_fails_def
      split: list.splits outcome.splits)

text \<open>
  C8. The constructor returns the storage object whatever the bootstrap does: when the
  scheme statement succeeds, when the backend answers with an error (the table exists
  already, the backend cannot be reached) and when \<^verbatim>\<open>asyncio.run\<close> itself raises. A
  failure is logged, with one line.
\<close>

theorem init_completes:
  "(\<exists>self. fst (init dc sp m tn w) = Inr self \<and> table_name self = tn
      \<and> serializing_method self = (if m = ''pickle'' then ''pickle'' else ''json''))
   \<and> (next_fails w \<or> loop_running w \<longrightarrow>
        (\<exists>line. logged (snd (init dc sp m tn w)) = logged w @ [line]))"
  using init_logged [of w dc sp m tn] by (simp add: init_result)

theorem init_completes_witness:
  "next_fails (start_world Map.empty [Fail (BackendError ''table already exists'')])
   \<and> (\<exists>self. fst (init (Some 0) None ''yaml'' ''fsm_storage''
         (start_world Map.empty [Fail (BackendError ''table already exists'')])) = Inr self
        \<and> table_name self = ''fsm_storage'' \<and> serializing_method self = ''json'')
   \<and> (\<exists>line. logged (snd (init (Some 0) None ''yaml'' ''fsm_storage''
         (start_world Map.empty [Fail (BackendError ''table already exists'')]))) = [line])"
  using init_completes [of "Some 0" None "''yaml''" "''fsm_storage''"
      "start_world Map.empty [Fail (BackendError ''table already exists'')]"]
  by (simp add: next_fails_def start_world_def)

subsection \<open>No failure of a collaborator reaches the caller\<close>

lemma failing_executor:
  assumes "next_fails w"
  shows "table (snd (set_state self k st w)) = table w"
    and "\<exists>line. logged (snd (set_state self k st w)) = logged w @ [line]"
    and "table (snd (set_data lib self k d w)) = table w"
    and "\<exists>line. logged (snd (set_data lib self k d w)) = logged (snd (ser lib self d w)) @ [line]"
    and "fst (get_state self k w) = Inr PNone"
    and "\<exists>line. logged (snd (get_state self k w)) = logged w @ [line]"
    and "fst (get_data lib self k w) = Inr PNone"
    and "\<exists>line. logged (snd (get_data lib self k w)) = logged w @ [line]"
proof -
  from assms obtain e ocs where p: "pending w = Fail e # ocs"
    by (auto simp: next_fails_def split: list.splits outcome.splits)
  then have p': "pending (snd (ser lib self d w)) = Fail e # ocs" by simp
  show "table (snd (set_state self k st w)) = table w"
    by (simp add: set_state_unfold execute_query_fail [OF p])
  show "\<exists>line. logged (snd (set_state self k st w)) = logged w @ [line]"
    by (simp add: set_state_unfold execute_query_fail [OF p])
  show "table (snd (set_data lib self k d w)) = table w"
    using assms by (rule set_data_failed_table)
  show "\<exists>line. logged (snd (set_data lib self k d w)) = logged (snd (ser lib self d w)) @ [line]"
    by (simp add: set_data_unfold execute_query_fail [OF p'])
  show "fst (get_state self k w) = Inr PNone"
    using assms by (simp add: get_state_result)
  show "\<exists>line. logged (snd (get_state self k w)) = logged w @ [line]"
    by (simp add: get_state_unfold execute_query_fail [OF p])
  show "fst (get_data lib self k w) = Inr PNone"
    using assms by (simp add: get_data_result)
  show "\<exists>line. logged (snd (get_data lib self k w)) = logged w @ [line]"
    by (simp add: get_data_unfold execute_query_fail [OF p])
qed

lemma failing_deserialization:
  assumes "\<not> next_fails w" and "stored_data w (key k) = Some s" and "s \<noteq> []"
    and "isl (active_loads lib self s)"
  shows "fst (get_data lib self k w) = Inr PNone"
    and "\<exists>line. logged (snd (get_data lib self k w)) = logged w @ [line]"
  using assms
  by (auto simp: get_data_result get_data_unfold execute_select_data dsr_column next_fails_def
      stored_data_def split: list.splits outcome.splits option.splits sum.splits)

lemma rows_broken_stored: "stored_data (start_world rows_broken []) (key demo_key) = Some text_broken"
  by (simp add: stored_data_def start_world_def rows_broken_def key_demo)

lemma demo_loads_broken: "isl (active_loads demo_codec demo_storage text_broken)"
  by (simp add: active_loads_def demo_codec_def demo_storage_def demo_texts_def text_broken_def)

lemma set_data_written:
  assumes "\<not> next_fails w" and "active_dumps lib self v = Inr (PStr t)"
  shows "stored_data (snd (set_data lib self k v w)) (key k) = Some t"
  using assms
  by (simp add: set_data_table ser_unfold execute_query_table utf8_param_def upsert_row_def
      stored_data_def)

lemma update_data_failed_read_world:
  "next_fails w \<Longrightarrow>
   snd (update_data lib self k dd w) =
     snd (set_data lib self k (PDict (dict_update [] dd)) (snd (get_data lib self k w)))"
  by (simp add: update_data_unfold get_data_result current_dict_def)

lemma update_data_failed_read_written:
  assumes "next_fails w" and "\<not> next_fails (snd (get_data lib self k w))"
    and "active_dumps lib self (PDict (dict_update [] dd)) = Inr (PStr t)"
  shows "stored_data (snd (update_data lib self k dd w)) (key k) = Some t"
  using set_data_written [OF assms(2,3)] update_data_failed_read_world [OF assms(1)]
  by simp

lemma demo_dumps_b:
  "active_dumps demo_codec demo_storage (PDict [(''b'', PInt 2)]) = Inr (PStr text_b)"
  by (simp add: active_dumps_def demo_codec_def demo_storage_def demo_texts_def text_b_def)

lemma text_b_differs: "text_b \<noteq> text_a"
  by (simp add: text_b_def text_a_def)

lemma demo_failed_read_then_idle:
  "\<not> next_fails (snd (get_data demo_codec demo_storage demo_key
      (start_world rows_a [Fail e])))"
  by (simp add: next_fails_def get_data_pending start_world_simps)

text \<open>
  C9 (as the code has it). \<^verbatim>\<open>set_state\<close>, \<^verbatim>\<open>set_data\<close>, \<^verbatim>\<open>get_state\<close> and \<^verbatim>\<open>get_data\<close>
  always return, and \<^verbatim>\<open>update_data\<close> returns unless the stored data is a truthy value that
  is no dictionary (then the interpreter's \<^verbatim>\<open>AttributeError\<close> leaves it, no failure of the
  executor or the codec). When the executor fails, \<^verbatim>\<open>set_state\<close> and \<^verbatim>\<open>set_data\<close> leave the
  table as it was, \<^verbatim>\<open>get_state\<close> and \<^verbatim>\<open>get_data\<close> return \<^verbatim>\<open>None\<close>, and a line is logged.
  \<^verbatim>\<open>update_data\<close> is no such no-op: when its read fails it takes the current data to be
  empty, returns the partial dictionary and goes on to \<^verbatim>\<open>set_data\<close> with the partial
  dictionary alone, in the world the failed read left; when that write goes through, the
  stored data is the text of the partial dictionary, whatever was stored before. When the
  serialization fails, \<^verbatim>\<open>set_data\<close> leaves the table as it was and logs; when the
  deserialization fails, \<^verbatim>\<open>get_data\<close> returns \<^verbatim>\<open>None\<close> and logs.
\<close>

theorem operations_never_raise:
  "fst (set_state self k st w) = Inr PNone
   \<and> fst (set_data lib self k d w) = Inr PNone
   \<and> (\<exists>v. fst (get_state self k w) = Inr v)
   \<and> (\<exists>v. fst (get_data lib self k w) = Inr v)
   \<and> (\<exists>got. fst (get_data lib self k w) = Inr got \<and>
        fst (update_data lib self k dd w) =
          (case current_dict got of
             Some cur \<Rightarrow> Inr (PDict (dict_update cur dd))
           | None \<Rightarrow> Inl (AttributeError ''object has no attribute update'')))
   \<and> (next_fails w \<longrightarrow>
        table (snd (set_state self k st w)) = table w
        \<and> (\<exists>line. logged (snd (set_state self k st w)) = logged w @ [line])
        \<and> table (snd (set_data lib self k d w)) = table w
        \<and> (\<exists>line. logged (snd (set_data lib self k d w))
              = logged (snd (ser lib self d w)) @ [line])
        \<and> fst (get_state self k w) = Inr PNone
        \<and> (\<exists>line. logged (snd (get_state self k w)) = logged w @ [line])
        \<and> fst (get_data lib self k w) = Inr PNone
        \<and> (\<exists>line. logged (snd (get_data lib self k w)) = logged w @ [line])
        \<and> fst (update_data lib self k dd w) = Inr (PDict (dict_update [] dd))
        \<and> snd (update_data lib self k dd w) =
            snd (set_data lib self k (PDict (dict_update [] dd)) (snd (get_data lib self k w))))
   \<and> (next_fails w \<and> \<not> next_fails (snd (get_data lib self k w))
        \<and> active_dumps lib self (PDict (dict_update [] dd)) = Inr (PStr t) \<longrightarrow>
        stored_data (snd (update_data lib self k dd w)) (key k) = Some t)
   \<and> (ser_fails lib self d \<longrightarrow>
        table (snd (set_data lib self k d w)) = table w
        \<and> (\<exists>l1 l2. logged (snd (set_data lib self k d w)) = logged w @ [l1, l2]))
   \<and> (\<not> next_fails w \<and> stored_data w (key k) = Some s \<and> s \<noteq> []
        \<and> isl (active_loads lib self s) \<longrightarrow>
        fst (get_data lib self k w) = Inr PNone
        \<and> (\<exists>line. logged (snd (get_data lib self k w)) = logged w @ [line]))"
proof (intro conjI impI)
  show "fst (set_state self k st w) = Inr PNone" by (rule set_state_result)
  show "fst (set_data lib self k d w) = Inr PNone" by (rule set_data_result)
  show "\<exists>v. fst (get_state self k w) = Inr v" by (simp add: get_state_result)
  show "\<exists>v. fst (get_data lib self k w) = Inr v" by (simp add: get_data_result)
  show "\<exists>got. fst (get_data lib self k w) = Inr got \<and>
        fst (update_data lib self k dd w) =
          (case current_dict got of
             Some cur \<Rightarrow> Inr (PDict (dict_update cur dd))
           | None \<Rightarrow> Inl (AttributeError ''object has no attribute update''))"
    by (rule update_data_result)
next
  assume f: "next_fails w"
  show "table (snd (set_state self k st w)) = table w" by (rule failing_executor(1) [OF f])
  show "\<exists>line. logged (snd (set_state self k st w)) = logged w @ [line]"
    by (rule failing_executor(2) [OF f])
  show "table (snd (set_data lib self k d w)) = table w" by (rule failing_executor(3) [OF f])
  show "\<exists>line. logged (snd (set_data lib self k d w)) = logged (snd (ser lib self d w)) @ [line]"
    by (rule failing_executor(4) [OF f])
  show "fst (get_state self k w) = Inr PNone" by (rule failing_executor(5) [OF f])
  show "\<exists>line. logged (snd (get_state self k w)) = logged w @ [line]"
    by (rule failing_executor(6) [OF f])
  show "fst (get_data lib self k w) = Inr PNone" by (rule failing_executor(7) [OF f])
  show "\<exists>line. logged (snd (get_data lib self k w)) = logged w @ [line]"
    by (rule failing_executor(8) [OF f])
  show "fst (update_data lib self k dd w) = Inr (PDict (dict_update [] dd))"
    by (rule update_data_failed_read [OF f])
  show "snd (update_data lib self k dd w) =
      snd (set_data lib self k (PDict (dict_update [] dd)) (snd (get_data lib self k w)))"
    by (rule update_data_failed_read_world [OF f])
next
  assume f: "next_fails w \<and> \<not> next_fails (snd (get_data lib self k w))
        \<and> active_dumps lib self (PDict (dict_update [] dd)) = Inr (PStr t)"
  then show "stored_data (snd (update_data lib self k dd w)) (key k) = Some t"
    using update_data_failed_read_written by blast
next
  assume f: "ser_fails lib self d"
  show "table (snd (set_data lib self k d w)) = table w"
    by (rule rejected_write(1) [OF f])
  show "\<exists>l1 l2. logged (snd (set_data lib self k d w)) = logged w @ [l1, l2]"
    by (rule rejected_write(3) [OF f])
next
  assume f: "\<not> next_fails w \<and> stored_data w (key k) = Some s \<and> s \<noteq> []
        \<and> isl (active_loads lib self s)"
  then show "fst (get_data lib self k w) = Inr PNone"
    using failing_deserialization(1) by blast
  from f show "\<exists>line. logged (snd (get_data lib self k w)) = logged w @ [line]"
    using failing_deserialization(2) by blast
qed

theorem operations_never_raise_witness:
  "next_fails (start_world rows_a [Fail (BackendError ''unavailable'')])
   \<and> ser_fails demo_codec demo_storage (PObject 0)
   \<and> fst (set_state demo_storage demo_key (StateStr ''busy'')
        (start_world rows_a [Fail (BackendError ''unavailable'')])) = Inr PNone
   \<and> table (snd (set_state demo_storage demo_key (StateStr ''busy'')
        (start_world rows_a [Fail (BackendError ''unavailable'')]))) = rows_a
   \<and> table (snd (set_data demo_codec demo_storage demo_key (PObject 0)
        (start_world rows_a [Fail (BackendError ''unavailable'')]))) = rows_a
   \<and> fst (get_state demo_storage demo_key
        (start_world rows_a [Fail (BackendError ''unavailable'')])) = Inr PNone
   \<and> fst (get_data demo_codec demo_storage demo_key
        (start_world rows_a [Fail (BackendError ''unavailable'')])) = Inr PNone
   \<and> fst (update_data demo_codec demo_storage demo_key [(''b'', PInt 2)]
        (start_world rows_a [Fail (BackendError ''unavailable'')])) = Inr (PDict [(''b'', PInt 2)])
   \<and> \<not> next_fails (snd (get_data demo_codec demo_storage demo_key
        (start_world rows_a [Fail (BackendError ''unavailable'')])))
   \<and> active_dumps demo_codec demo_storage (PDict [(''b'', PInt 2)]) = Inr (PStr text_b)
   \<and> stored_data (snd (update_data demo_codec demo_storage demo_key [(''b'', PInt 2)]
        (start_world rows_a [Fail (BackendError ''unavailable'')]))) (key demo_key)
       = Some text_b
   \<and> \<not> next_fails (start_world rows_broken [])
   \<and> stored_data (start_world rows_broken []) (key demo_key) = Some text_broken
   \<and> text_broken \<noteq> []
   \<and> isl (active_loads demo_codec demo_storage text_broken)
   \<and> fst (get_data demo_codec demo_storage demo_key (start_world rows_broken [])) = Inr PNone"
proof -
  let ?wa = "start_world rows_a [Fail (BackendError ''unavailable'')]"
  let ?wb = "start_world rows_broken []"
  have fa: "next_fails ?wa" by (simp add: next_fails_def start_world_simps)
  have nb: "\<not> next_fails ?wb" by (simp add: next_fails_def start_world_simps)
  have tb: "text_broken \<noteq> []" by (simp add: text_broken_def)
  have db: "active_dumps demo_codec demo_storage (PDict (dict_update [] [(''b'', PInt 2)]))
      = Inr (PStr text_b)"
    using demo_dumps_b by simp
  note a = operations_never_raise [where self = demo_storage and k = demo_key
      and st = "StateStr ''busy''" and w = ?wa and lib = demo_codec and d = "PObject 0"
      and dd = "[(''b'', PInt 2)]" and s = text_broken and t = text_b]
  note b = operations_never_raise [where self = demo_storage and k = demo_key
      and st = NoState and w = ?wb and lib = demo_codec and d = PNone
      and dd = "[]" and s = text_broken and t = text_b]
  have w: "stored_data (snd (update_data demo_codec demo_storage demo_key [(''b'', PInt 2)]
        ?wa)) (key demo_key) = Some text_b"
    using a fa demo_failed_read_then_idle [of "BackendError ''unavailable''"] db by blast
  from a fa demo_ser_fails b nb rows_broken_stored tb demo_loads_broken w
    demo_failed_read_then_idle [of "BackendError ''unavailable''"] demo_dumps_b
  show ?thesis
    by (simp add: start_world_simps)
qed

text \<open>
  C9 as the specification words it, with a no-op for every write after a failure, does not
  hold of \<^verbatim>\<open>update_data\<close>. The stored data is \<^verbatim>\<open>{"a": 1}\<close> and the executor fails once: the
  read of \<^verbatim>\<open>update_data\<close> fails, the call returns \<^verbatim>\<open>{"b": 2}\<close>, and its write, which goes
  through, replaces the stored data by \<^verbatim>\<open>{"b": 2}\<close>; the entry \<^verbatim>\<open>a\<close> is lost.
\<close>

theorem update_data_failed_read_counterexample:
  "next_fails (start_world rows_a [Fail (BackendError ''unavailable'')])
   \<and> stored_data (start_world rows_a [Fail (BackendError ''unavailable'')]) (key demo_key)
       = Some text_a
   \<and> fst (update_data demo_codec demo_storage demo_key [(''b'', PInt 2)]
        (start_world rows_a [Fail (BackendError ''unavailable'')]))
       = Inr (PDict [(''b'', PInt 2)])
   \<and> stored_data (snd (update_data demo_codec demo_storage demo_key [(''b'', PInt 2)]
        (start_world rows_a [Fail (BackendError ''unavailable'')]))) (key demo_key)
       = Some text_b
   \<and> text_b \<noteq> text_a"
proof -
  let ?w = "start_world rows_a [Fail (BackendError ''unavailable'')]"
  have f: "next_fails ?w" by (simp add: next_fails_def start_world_simps)
  have d: "active_dumps demo_codec demo_storage (PDict (dict_update [] [(''b'', PInt 2)]))
      = Inr (PStr text_b)"
    using demo_dumps_b by simp
  have r: "fst (update_data demo_codec demo_storage demo_key [(''b'', PInt 2)] ?w)
      = Inr (PDict [(''b'', PInt 2)])"
    using update_data_failed_read [OF f, of demo_codec demo_storage demo_key "[(''b'', PInt 2)]"]
    by simp
  from f rows_a_stored r update_data_failed_read_written [OF f demo_failed_read_then_idle d]
    text_b_differs
  show ?thesis by blast
qed


subsection \<open>Further properties of the operations\<close>

text \<open>
  On a healthy backend, \<^verbatim>\<open>set_state\<close> with a non-empty state, given as a text or as
  a \<^verbatim>\<open>State\<close> object, followed by \<^verbatim>\<open>get_state\<close> for the same key returns that state.
\<close>

theorem set_state_then_get_state:
  "pending w = [] \<Longrightarrow> s \<noteq> [] \<Longrightarrow>
   fst (get_state self k (snd (set_state self k (StateStr s) w))) = Inr (PStr s)
   \<and> fst (get_state self k (snd (set_state self k (StateObj (Some s)) w))) = Inr (PStr s)"
  using set_state_stored [of w self k "StateStr s"] set_state_stored [of w self k "StateObj (Some s)"]
  by (simp add: get_state_result next_fails_idle s_state_of_def)

theorem set_state_then_get_state_witness:
  "pending (start_world Map.empty []) = [] \<and> ''foo'' \<noteq> []
   \<and> fst (get_state demo_storage demo_key
        (snd (set_state demo_storage demo_key (StateStr ''foo'') (start_world Map.empty []))))
       = Inr (PStr ''foo'')"
  using set_state_then_get_state [of "start_world Map.empty []" "''foo''" demo_storage demo_key]
  by (simp add: start_world_simps)

lemma json_dumps_active:
  "serializing_method self \<noteq> ''pickle'' \<Longrightarrow> json_roundtrips lib v \<Longrightarrow>
   \<exists>s. active_dumps lib self v = Inr (PStr s)"
  by (auto simp: json_roundtrips_def active_dumps_def split: sum.splits)

lemma demo_roundtrips_more:
  "json_roundtrips demo_codec (PDict [(''a'', PInt 1)])"
  "json_roundtrips demo_codec (PDict [(''b'', PInt 2)])"
  by (simp_all add: json_roundtrips_def demo_codec_def demo_texts_def)

text \<open>
  \<^verbatim>\<open>set_data\<close> replaces: on a healthy backend, in the \<^verbatim>\<open>json\<close> mode, after two
  \<^verbatim>\<open>set_data\<close> for one key with values that \<^verbatim>\<open>json\<close> can represent, \<^verbatim>\<open>get_data\<close>
  returns the second value, with nothing of the first.
\<close>

theorem set_data_overwrites:
  assumes "pending w = []" and "serializing_method self \<noteq> ''pickle''"
    and "json_roundtrips lib v1" and "json_roundtrips lib v2"
  shows "fst (get_data lib self k (snd (set_data lib self k v2 (snd (set_data lib self k v1 w)))))
     = Inr v2"
proof -
  from json_dumps_active [OF assms(2,3)] obtain s where
    "active_dumps lib self v1 = Inr (PStr s)" by blast
  from set_data_stored(2) [OF assms(1) this]
  have "pending (snd (set_data lib self k v1 w)) = []" .
  from set_data_get_data [OF this assms(2,4)] show ?thesis .
qed

theorem set_data_overwrites_witness:
  "pending (start_world Map.empty []) = []
   \<and> serializing_method demo_storage \<noteq> ''pickle''
   \<and> json_roundtrips demo_codec (PDict [(''a'', PInt 1)])
   \<and> json_roundtrips demo_codec (PDict [(''b'', PInt 2)])
   \<and> fst (get_data demo_codec demo_storage demo_key
        (snd (set_data demo_codec demo_storage demo_key (PDict [(''b'', PInt 2)])
          (snd (set_data demo_codec demo_storage demo_key (PDict [(''a'', PInt 1)])
            (start_world Map.empty []))))))
       = Inr (PDict [(''b'', PInt 2)])"
  using set_data_overwrites [OF start_world_simps(2) [of Map.empty "[]"] demo_json_mode
      demo_roundtrips_more, where k = demo_key]
  by (simp add: start_world_simps demo_json_mode demo_roundtrips_more)

text \<open>
  For a key with no row, \<^verbatim>\<open>get_state\<close> and \<^verbatim>\<open>get_data\<close> return \<^verbatim>\<open>None\<close>, whatever
  the executor does.
\<close>

theorem never_written_key:
  "table w (key k) = None \<Longrightarrow>
   fst (get_state self k w) = Inr PNone \<and> fst (get_data lib self k w) = Inr PNone"
  by (simp add: get_state_result get_data_result stored_state_def stored_data_def)

theorem never_written_key_witness:
  "table (start_world Map.empty []) (key demo_key) = None
   \<and> fst (get_state demo_storage demo_key (start_world Map.empty [])) = Inr PNone
   \<and> fst (get_data demo_codec demo_storage demo_key (start_world Map.empty [])) = Inr PNone"
  using never_written_key [of "start_world Map.empty []" demo_key demo_storage demo_codec]
  by (simp add: start_world_simps)

text \<open>
  \<^verbatim>\<open>update_data\<close> raises: when the stored text deserializes to a truthy value that
  is no dictionary (a non-empty list, a number, a text), \<^verbatim>\<open>current_data.update\<close> raises
  \<^verbatim>\<open>AttributeError\<close>, no handler catches it, and nothing is written.
\<close>

theorem update_data_non_mapping:
  assumes "\<not> next_fails w" and "stored_data w (key k) = Some s" and "s \<noteq> []"
    and "active_loads lib self s = Inr got" and "truthy got" and "\<forall>d. got \<noteq> PDict d"
  shows "fst (update_data lib self k dd w) = Inl (AttributeError ''object has no attribute update'')
     \<and> table (snd (update_data lib self k dd w)) = table w"
proof -
  from assms(1-4) have g: "fst (get_data lib self k w) = Inr got"
    by (simp add: get_data_result)
  from assms(5,6) have c: "current_dict got = None"
    by (cases got) (simp_all add: current_dict_def)
  from g c show ?thesis by (simp add: update_data_unfold get_data_table)
qed

lemma rows_list_stored: "stored_data (start_world rows_list []) (key demo_key) = Some ''[1]''"
  by (simp add: stored_data_def start_world_def rows_list_def key_demo)

lemma demo_loads_list: "active_loads demo_codec demo_storage ''[1]'' = Inr (PList [PInt 1])"
  by (simp add: active_loads_def demo_codec_def demo_storage_def demo_texts_def)

theorem update_data_non_mapping_witness:
  "\<not> next_fails (start_world rows_list [])
   \<and> stored_data (start_world rows_list []) (key demo_key) = Some ''[1]''
   \<and> active_loads demo_codec demo_storage ''[1]'' = Inr (PList [PInt 1])
   \<and> truthy (PList [PInt 1])
   \<and> fst (update_data demo_codec demo_storage demo_key [(''b'', PInt 2)] (start_world rows_list []))
       = Inl (AttributeError ''object has no attribute update'')"
proof -
  have n: "\<not> next_fails (start_world rows_list [])"
    by (simp add: next_fails_def start_world_simps)
  have e: "''[1]'' \<noteq> []" by simp
  have t: "truthy (PList [PInt 1])" by simp
  have d: "\<forall>d. PList [PInt 1] \<noteq> PDict d" by simp
  from update_data_non_mapping [OF n rows_list_stored e demo_loads_list t d]
  show ?thesis using n rows_list_stored demo_loads_list t by blast
qed

text \<open>
  When the read of \<^verbatim>\<open>update_data\<close> fails and its write succeeds, the partial
  dictionary alone is written: the data stored before is replaced, not merged.
\<close>

theorem update_data_after_failed_read:
  assumes "pending w = [Fail e]" and "serializing_method self \<noteq> ''pickle''"
    and "json_roundtrips lib (PDict (dict_update [] dd))"
  shows "fst (update_data lib self k dd w) = Inr (PDict (dict_update [] dd))
     \<and> fst (get_data lib self k (snd (update_data lib self k dd w)))
         = Inr (PDict (dict_update [] dd))"
proof -
  from assms(1) have f: "next_fails w" by (simp add: next_fails_def)
  then have g: "fst (get_data lib self k w) = Inr PNone" by (simp add: get_data_result)
  have c: "current_dict PNone = Some []" by (simp add: current_dict_def)
  from assms(1) have p: "pending (snd (get_data lib self k w)) = []"
    by (simp add: get_data_pending)
  from g c have u: "snd (update_data lib self k dd w) =
      snd (set_data lib self k (PDict (dict_update [] dd)) (snd (get_data lib self k w)))"
    by (simp add: update_data_unfold)
  show ?thesis
    using update_data_failed_read [OF f] set_data_get_data [OF p assms(2,3)]
    by (simp add: u)
qed

theorem update_data_after_failed_read_witness:
  "pending (start_world rows_a [Fail (BackendError ''timeout'')]) = [Fail (BackendError ''timeout'')]
   \<and> fst (update_data demo_codec demo_storage demo_key [(''b'', PInt 2)]
        (start_world rows_a [Fail (BackendError ''timeout'')])) = Inr (PDict [(''b'', PInt 2)])
   \<and> fst (get_data demo_codec demo_storage demo_key
        (snd (update_data demo_codec demo_storage demo_key [(''b'', PInt 2)]
          (start_world rows_a [Fail (BackendError ''timeout'')]))))
       = Inr (PDict [(''b'', PInt 2)])"
proof -
  have p: "pending (start_world rows_a [Fail (BackendError ''timeout'')])
      = [Fail (BackendError ''timeout'')]"
    by (simp add: start_world_simps)
  have r: "json_roundtrips demo_codec (PDict (dict_update [] [(''b'', PInt 2)]))"
    by (simp add: demo_roundtrips_more)
  from update_data_after_failed_read [OF p demo_json_mode r, of demo_key] p
  show ?thesis by simp
qed

end
